theory Spec2Isabelle
  imports Main "HOL-Library.AList"
begin

section \<open>Strings, values and the environment of the program\<close>

text \<open>
  The program is one Python 3 module, \<^verbatim>\<open>ios.py\<close>. A Python \<^verbatim>\<open>str\<close> is a sequence of
  Unicode code points, so it is modelled as a list of natural numbers; an 8-bit
  \<^typ>\<open>char\<close> could not hold the Devanagari text that the lexicon produces. ASCII
  literals are written \<open>str ''...''\<close>.
\<close>

type_synonym ustring = "nat list"

abbreviation str :: "string \<Rightarrow> ustring" where
  "str s \<equiv> map of_char s"

text \<open>The exceptions that the modelled code can raise.\<close>

datatype pyexn =
    TypeError
  | AttributeError
  | JSONDecodeError
  | FileNotFoundError
  | ReError

text \<open>
  The value of \<^verbatim>\<open>json.loads\<close> on one line of the dataset. Objects keep their
  members in order. Floating point numbers are left out: no function of the program
  looks inside a number.
\<close>

datatype json =
    JNull
  | JBool bool
  | JNum int
  | JStr ustring
  | JArr "json list"
  | JObj "(ustring \<times> json) list"

text \<open>
  A confidence score is a Python float; a finite one is \<open>m * 2 ^ e\<close>. The program only
  ever renders a score with the format \<^verbatim>\<open>.2f\<close>.
\<close>

datatype pyfloat = PyFloat int int

text \<open>What \<^verbatim>\<open>recognize_google\<close> (with the read of the audio file before it) does.\<close>

datatype recognition =
    Heard ustring
  | UnknownValueError
  | RequestError
  | OtherError

text \<open>
  Everything the module takes from outside itself is a field of the environment: the
  platform's flavour of \<^verbatim>\<open>os.path\<close>, the Unicode tables behind \<^verbatim>\<open>str.lower\<close>,
  \<^verbatim>\<open>str.split\<close> and the \<^verbatim>\<open>re\<close> module, \<^verbatim>\<open>json.loads\<close>, and the three external
  collaborators. The theorems below hold for every environment; the environment
  \<open>posix_env\<close> further down is used for worked examples.

  \<^item> \<open>path_seps\<close>: \<^verbatim>\<open>os.sep\<close> and, where there is one, \<^verbatim>\<open>os.altsep\<close>;
  \<^item> \<open>basename\<close>, \<open>path_join\<close>: \<^verbatim>\<open>os.path.basename\<close>, \<^verbatim>\<open>os.path.join\<close>;
  \<^item> \<open>str_lower\<close>: \<^verbatim>\<open>str.lower\<close>;
  \<^item> \<open>is_space\<close>: the characters \<^verbatim>\<open>str.split()\<close> splits at;
  \<^item> \<open>is_word\<close>: the characters that \<^verbatim>\<open>\w\<close> matches in a \<^verbatim>\<open>str\<close> pattern;
  \<^item> \<open>ci_class c\<close>: the characters that the pattern literal \<open>c\<close> matches under
    \<^verbatim>\<open>re.IGNORECASE\<close> (a finite class: \<open>c\<close> and its case variants);
  \<^item> \<open>re_sub_other pattern repl string\<close>: the result of \<^verbatim>\<open>re.sub\<close> with
    \<^verbatim>\<open>flags=re.IGNORECASE\<close> for the patterns and replacement templates that the model of
    \<^verbatim>\<open>re\<close> below does not interpret itself;
  \<^item> \<open>json_loads\<close>: \<^verbatim>\<open>json.loads\<close>, \<open>None\<close> when it raises;
  \<^item> \<open>fmt2f\<close>: the rendering of a float by the format \<^verbatim>\<open>.2f\<close>;
  \<^item> \<open>recognize_google path\<close>: reading the audio file at \<open>path\<close> and
    \<^verbatim>\<open>recognizer.recognize_google(audio_data, language="hi-IN")\<close>;
  \<^item> \<open>detect\<close>: \<^verbatim>\<open>langdetect.detect\<close>, \<open>None\<close> when it raises;
  \<^item> \<open>translator text src\<close>: \<^verbatim>\<open>Translator().translate(text, src=src, dest='en').text\<close>,
    \<open>None\<close> when the call raises.
\<close>

record env =
  path_seps :: "nat list"
  basename :: "ustring \<Rightarrow> ustring"
  path_join :: "ustring \<Rightarrow> ustring \<Rightarrow> ustring"
  str_lower :: "ustring \<Rightarrow> ustring"
  is_space :: "nat \<Rightarrow> bool"
  is_word :: "nat \<Rightarrow> bool"
  ci_class :: "nat \<Rightarrow> nat list"
  re_sub_other :: "ustring \<Rightarrow> json \<Rightarrow> ustring \<Rightarrow> pyexn + ustring"
  json_loads :: "ustring \<Rightarrow> json option"
  fmt2f :: "pyfloat \<Rightarrow> ustring"
  recognize_google :: "ustring \<Rightarrow> recognition"
  detect :: "ustring \<Rightarrow> ustring option"
  translator :: "ustring \<Rightarrow> ustring \<Rightarrow> ustring option"


section \<open>File classification\<close>

text \<open>\<^verbatim>\<open>SUPPORTED_FORMATS = ('.m4a', '.mp3', '.webm', '.mp4', '.mpga', '.wav', '.mpeg')\<close>\<close>

definition SUPPORTED_FORMATS :: "ustring list" where
  "SUPPORTED_FORMATS =
     [str ''.m4a'', str ''.mp3'', str ''.webm'', str ''.mp4'', str ''.mpga'', str ''.wav'',
      str ''.mpeg'']"

text \<open>
  \<^verbatim>\<open>str.rfind\<close> of a single character: the highest index at which it occurs, or \<open>-1\<close>.
\<close>

fun rfind_from :: "nat \<Rightarrow> ustring \<Rightarrow> int \<Rightarrow> int \<Rightarrow> int" where
  "rfind_from c [] i best = best"
| "rfind_from c (x # xs) i best = rfind_from c xs (i + 1) (if x = c then i else best)"

definition rfind :: "nat \<Rightarrow> ustring \<Rightarrow> int" where
  "rfind c p = rfind_from c p 0 (- 1)"

text \<open>
  \<^verbatim>\<open>os.path.splitext\<close>, as \<^verbatim>\<open>genericpath._splitext\<close> computes it:
  \<^verbatim>\<open>
    sepIndex = p.rfind(sep)
    if altsep:
        altsepIndex = p.rfind(altsep)
        sepIndex = max(sepIndex, altsepIndex)
    dotIndex = p.rfind(extsep)
    if dotIndex > sepIndex:
        # skip all leading dots
        filenameIndex = sepIndex + 1
        while filenameIndex < dotIndex:
            if p[filenameIndex:filenameIndex+1] != extsep:
                return p[:dotIndex], p[dotIndex:]
            filenameIndex += 1
    return p, p[:0]
  \<close>
  \<open>sep_index\<close> is the maximum over the separators of the platform, \<open>has_stem\<close> is the
  \<^verbatim>\<open>while\<close> loop: it says whether the loop returns from inside.
\<close>

definition sep_index :: "nat list \<Rightarrow> ustring \<Rightarrow> int" where
  "sep_index seps p = fold (\<lambda>s m. max m (rfind s p)) seps (- 1)"

function has_stem :: "ustring \<Rightarrow> nat \<Rightarrow> nat \<Rightarrow> bool" where
  "has_stem p filenameIndex dotIndex =
     (if filenameIndex < dotIndex
      then (if take 1 (drop filenameIndex p) \<noteq> [46] then True
            else has_stem p (filenameIndex + 1) dotIndex)
      else False)"
  by pat_completeness auto
termination
  by (relation "measure (\<lambda>(p, i, d). d - i)") auto

definition splitext :: "env \<Rightarrow> ustring \<Rightarrow> ustring \<times> ustring" where
  "splitext E p =
     (let sepIndex = sep_index (path_seps E) p;
          dotIndex = rfind 46 p
      in if dotIndex > sepIndex \<and> has_stem p (nat (sepIndex + 1)) (nat dotIndex)
         then (take (nat dotIndex) p, drop (nat dotIndex) p)
         else (p, []))"

text \<open>
  \<^verbatim>\<open>
  def is_supported_format(file_path):
      return os.path.splitext(file_path)[1].lower() in SUPPORTED_FORMATS
  \<close>
\<close>

definition is_supported_format :: "env \<Rightarrow> ustring \<Rightarrow> bool" where
  "is_supported_format E file_path =
     (str_lower E (snd (splitext E file_path)) \<in> set SUPPORTED_FORMATS)"


section \<open>The lexicon and the text normalizer\<close>

subsection \<open>The fragment of the \<^verbatim>\<open>re\<close> module that the normalizer reaches\<close>

text \<open>
  \<^verbatim>\<open>preprocess_text\<close> builds its patterns by concatenation, \<^verbatim>\<open>r'\b' + hinglish + r'\b'\<close>,
  so what the pattern means depends on the key. The model interprets the patterns made
  of word boundaries \<^verbatim>\<open>\b\<close>, ordinary characters, the dot and groups; such a pattern
  matches a fixed number of characters. Every other construct (a repetition, a set, an
  alternative, an anchor, any other escape) is left to \<open>re_sub_other\<close>.

  The special characters of a pattern are those of \<^verbatim>\<open>sre_parse.SPECIAL_CHARS\<close>,
  \<^verbatim>\<open>.\[{()*+?^$|\<close>; every other character stands for itself.
\<close>

definition SPECIAL_CHARS :: "nat list" where
  "SPECIAL_CHARS = [46, 92, 91, 123, 40, 41, 42, 43, 63, 94, 36, 124]"

datatype atom = Boundary | Literal nat | AnyChar

datatype 'a parsed = Parsed 'a | Malformed | NotInterpreted

fun and_then :: "'a \<Rightarrow> 'a list parsed \<Rightarrow> 'a list parsed" where
  "and_then x (Parsed xs) = Parsed (x # xs)"
| "and_then x Malformed = Malformed"
| "and_then x NotInterpreted = NotInterpreted"

text \<open>
  The parser reads the pattern from left to right, as \<^verbatim>\<open>sre_parse\<close> does, and stops at
  the first thing that is an error or that it does not interpret. \<open>depth\<close> counts the
  groups that are open. An opening parenthesis that is never closed is the error
  \<^verbatim>\<open>missing ), unterminated subpattern\<close>; a closing one with no group open is
  \<^verbatim>\<open>unbalanced parenthesis\<close>. A group changes nothing in what a pattern of this
  fragment matches, so the atoms are kept flat.
\<close>

fun parse_pattern :: "ustring \<Rightarrow> nat \<Rightarrow> atom list parsed" where
  "parse_pattern [] depth = (if depth = 0 then Parsed [] else Malformed)"
| "parse_pattern (c # cs) depth =
     (if c = 92 then
        (case cs of
           [] \<Rightarrow> NotInterpreted
         | d # ds \<Rightarrow> if d = 98 then and_then Boundary (parse_pattern ds depth) else NotInterpreted)
      else if c = 46 then and_then AnyChar (parse_pattern cs depth)
      else if c = 40 then
        (case cs of
           [] \<Rightarrow> Malformed
         | d # ds \<Rightarrow> if d = 63 then NotInterpreted else parse_pattern cs (depth + 1))
      else if c = 41 then (if depth = 0 then Malformed else parse_pattern cs (depth - 1))
      else if c \<in> set SPECIAL_CHARS then NotInterpreted
      else and_then (Literal c) (parse_pattern cs depth))"

text \<open>
  The replacement is a template. Without a backslash it is taken as it is. With one,
  \<^verbatim>\<open>sre_parse.parse_template\<close> resolves the escapes of \<^verbatim>\<open>sre_parse.ESCAPES\<close>
  (\<^verbatim>\<open>\a \b \f \n \r \t \v \\\<close>), keeps a backslash before a character that is not an
  ASCII letter or digit, and fails on a backslash that ends the template. A backslash
  before any other ASCII letter or a digit (a group reference, or an error) is not
  interpreted here.
\<close>

definition template_escape :: "nat \<Rightarrow> nat option" where
  "template_escape d =
     (if d = 97 then Some 7 else if d = 98 then Some 8 else if d = 102 then Some 12
      else if d = 110 then Some 10 else if d = 114 then Some 13 else if d = 116 then Some 9
      else if d = 118 then Some 11 else if d = 92 then Some 92 else None)"

definition ascii_alnum :: "nat \<Rightarrow> bool" where
  "ascii_alnum d = ((48 \<le> d \<and> d \<le> 57) \<or> (65 \<le> d \<and> d \<le> 90) \<or> (97 \<le> d \<and> d \<le> 122))"

fun parse_template :: "ustring \<Rightarrow> ustring parsed" where
  "parse_template [] = Parsed []"
| "parse_template (c # cs) =
     (if c \<noteq> 92 then and_then c (parse_template cs)
      else
        (case cs of
           [] \<Rightarrow> Malformed
         | d # ds \<Rightarrow>
             (case template_escape d of
                Some x \<Rightarrow> and_then x (parse_template ds)
              | None \<Rightarrow>
                  if ascii_alnum d then NotInterpreted
                  else and_then 92 (and_then d (parse_template ds)))))"

text \<open>
  Matching at one position. \<open>prev\<close> is the character before the position, if there is
  one: \<^verbatim>\<open>\b\<close> holds where exactly one of the two neighbours is a word character. A
  literal matches, under \<^verbatim>\<open>re.IGNORECASE\<close>, the characters of its class; the dot matches
  everything but a newline. The result is the character before the end of the match
  and the text after it.
\<close>

definition at_boundary :: "env \<Rightarrow> nat option \<Rightarrow> ustring \<Rightarrow> bool" where
  "at_boundary E prev rest =
     ((case prev of None \<Rightarrow> False | Some c \<Rightarrow> is_word E c)
      \<noteq> (case rest of [] \<Rightarrow> False | c # cs \<Rightarrow> is_word E c))"

fun match_here :: "env \<Rightarrow> atom list \<Rightarrow> nat option \<Rightarrow> ustring \<Rightarrow> (nat option \<times> ustring) option"
  where
  "match_here E [] prev rest = Some (prev, rest)"
| "match_here E (Boundary # atoms) prev rest =
     (if at_boundary E prev rest then match_here E atoms prev rest else None)"
| "match_here E (Literal c # atoms) prev [] = None"
| "match_here E (Literal c # atoms) prev (t # ts) =
     (if t \<in> set (ci_class E c) then match_here E atoms (Some t) ts else None)"
| "match_here E (AnyChar # atoms) prev [] = None"
| "match_here E (AnyChar # atoms) prev (t # ts) =
     (if t \<noteq> 10 then match_here E atoms (Some t) ts else None)"

text \<open>
  The substitution loop of \<^verbatim>\<open>pattern.sub\<close>: search from the current position; where the
  pattern matches, emit the replacement and go on after the match; where it does not,
  copy one character. After an empty match the character at the position is copied
  before the search goes on, so the loop always advances.
\<close>

function sub_from :: "env \<Rightarrow> atom list \<Rightarrow> ustring \<Rightarrow> nat option \<Rightarrow> ustring \<Rightarrow> ustring" where
  "sub_from E atoms repl prev rest =
     (case match_here E atoms prev rest of
        None \<Rightarrow> (case rest of [] \<Rightarrow> [] | c # cs \<Rightarrow> c # sub_from E atoms repl (Some c) cs)
      | Some (prev', rest') \<Rightarrow>
          if length rest' < length rest then repl @ sub_from E atoms repl prev' rest'
          else repl @ (case rest of [] \<Rightarrow> [] | c # cs \<Rightarrow> c # sub_from E atoms repl (Some c) cs))"
  by pat_completeness auto
termination
  by (relation "measure (\<lambda>(E, atoms, repl, prev, rest). length rest)") auto

text \<open>
  \<^verbatim>\<open>re.sub(pattern, repl, string, flags=re.IGNORECASE)\<close>. The pattern is compiled first,
  then the replacement is looked at: one that is not a string is a \<^verbatim>\<open>TypeError\<close>.
\<close>

definition re_sub :: "env \<Rightarrow> ustring \<Rightarrow> json \<Rightarrow> ustring \<Rightarrow> pyexn + ustring" where
  "re_sub E pattern repl string =
     (case parse_pattern pattern 0 of
        Malformed \<Rightarrow> Inl ReError
      | NotInterpreted \<Rightarrow> re_sub_other E pattern repl string
      | Parsed atoms \<Rightarrow>
          (case repl of
             JStr r \<Rightarrow>
               (case parse_template r of
                  Malformed \<Rightarrow> Inl ReError
                | NotInterpreted \<Rightarrow> re_sub_other E pattern repl string
                | Parsed literal \<Rightarrow> Inr (sub_from E atoms literal None string))
           | _ \<Rightarrow> Inl TypeError))"

subsection \<open>The normalizer\<close>

text \<open>
  The lexicon is the module's global dictionary \<^verbatim>\<open>HINGLISH_TO_HINDI\<close>. A Python
  dictionary iterates in insertion order and an assignment to a key that is present
  keeps the key's place, which is what \<^const>\<open>AList.update\<close> does on an association
  list. The values are whatever the dataset held under \<^verbatim>\<open>en\<close>.
\<close>

type_synonym lexicon = "(ustring \<times> json) list"

text \<open>
  \<^verbatim>\<open>
  def preprocess_text(text):
      for hinglish, hindi in HINGLISH_TO_HINDI.items():
          text = re.sub(r'\b' + hinglish + r'\b', hindi, text, flags=re.IGNORECASE)
      return text
  \<close>
\<close>

fun preprocess_text :: "env \<Rightarrow> lexicon \<Rightarrow> ustring \<Rightarrow> pyexn + ustring" where
  "preprocess_text E [] text = Inr text"
| "preprocess_text E ((hinglish, hindi) # items) text =
     (case re_sub E ([92, 98] @ hinglish @ [92, 98]) hindi text of
        Inl e \<Rightarrow> Inl e
      | Inr text' \<Rightarrow> preprocess_text E items text')"

subsection \<open>Whole-word substitution, as the specification words it\<close>

text \<open>
  The specification's normalizer, for comparison with the code's: cut the text into its
  words, the maximal runs of word characters; a word that equals the key, case aside,
  becomes the Hindi value; everything else is copied. The pairs of the lexicon are
  applied one after the other in insertion order.
\<close>

definition ci_equal :: "env \<Rightarrow> ustring \<Rightarrow> ustring \<Rightarrow> bool" where
  "ci_equal E key word = list_all2 (\<lambda>k t. t \<in> set (ci_class E k)) key word"

function spec_replace_words :: "env \<Rightarrow> ustring \<Rightarrow> ustring \<Rightarrow> ustring \<Rightarrow> ustring" where
  "spec_replace_words E key hindi [] = []"
| "spec_replace_words E key hindi (c # cs) =
     (if is_word E c then
        (let word = takeWhile (is_word E) (c # cs)
         in (if ci_equal E key word then hindi else word)
            @ spec_replace_words E key hindi (dropWhile (is_word E) cs))
      else c # spec_replace_words E key hindi cs)"
  by pat_completeness auto
termination
  by (relation "measure (\<lambda>(E, key, hindi, text). length text)")
     (auto simp: length_dropWhile_le less_Suc_eq_le)

fun spec_normalize :: "env \<Rightarrow> (ustring \<times> ustring) list \<Rightarrow> ustring \<Rightarrow> ustring" where
  "spec_normalize E [] text = text"
| "spec_normalize E ((hinglish, hindi) # items) text =
     spec_normalize E items (spec_replace_words E hinglish hindi text)"


subsection \<open>Keys and values that are plain text to \<^verbatim>\<open>re\<close>\<close>

text \<open>
  A key is plain when it is not empty and each of its characters is an ordinary
  pattern character that, case aside, matches word characters only. Every ASCII letter
  and digit is such a character. A value is plain when it is a string without a
  backslash.
\<close>

definition plain_key :: "env \<Rightarrow> ustring \<Rightarrow> bool" where
  "plain_key E key \<longleftrightarrow>
     key \<noteq> [] \<and>
     list_all (\<lambda>k. k \<notin> set SPECIAL_CHARS \<and> list_all (is_word E) (ci_class E k)) key"

definition plain_value :: "json \<Rightarrow> bool" where
  "plain_value v = (case v of JStr hindi \<Rightarrow> 92 \<notin> set hindi | _ \<Rightarrow> False)"

definition plain_lexicon :: "env \<Rightarrow> lexicon \<Rightarrow> bool" where
  "plain_lexicon E lexi = list_all (\<lambda>(k, v). plain_key E k \<and> plain_value v) lexi"

definition hindi_text :: "json \<Rightarrow> ustring" where
  "hindi_text v = (case v of JStr hindi \<Rightarrow> hindi | _ \<Rightarrow> [])"


section \<open>The state of the program and of the file system\<close>

text \<open>
  A directory, as \<^verbatim>\<open>os.walk\<close> sees it: its subdirectories, each with what is below it,
  and the names of its other entries.
\<close>

datatype dtree = DTree "(ustring \<times> dtree) list" "ustring list"

text \<open>
  The calls to the external collaborators, in the order they are made. \<open>Recognize path\<close>
  stands for the recognition step of \<^verbatim>\<open>detect_and_transcribe\<close> on \<open>path\<close>: reading the audio
  file and, when that succeeds, the call of \<^verbatim>\<open>recognize_google\<close>.
\<close>

datatype call =
    Recognize ustring
  | Detect ustring
  | Translate ustring ustring

text \<open>
  \<^item> \<open>HINGLISH_TO_HINDI\<close>: the global dictionary of the module;
  \<^item> \<open>files\<close>: the regular files, by path, with their decoded content;
  \<^item> \<open>dirs\<close>: the directories, by path;
  \<^item> \<open>unwritable\<close>: the paths at which \<^verbatim>\<open>open(path, 'w')\<close> raises;
  \<^item> \<open>calls\<close>: the calls made so far.

  A write is modelled as all or nothing: \<^verbatim>\<open>open\<close> either raises or the whole content
  gets written.
\<close>

record state =
  HINGLISH_TO_HINDI :: lexicon
  files :: "ustring \<rightharpoonup> ustring"
  dirs :: "ustring \<rightharpoonup> dtree"
  unwritable :: "ustring set"
  calls :: "call list"

definition path_exists :: "state \<Rightarrow> ustring \<Rightarrow> bool" where
  "path_exists s p \<longleftrightarrow> files s p \<noteq> None \<or> dirs s p \<noteq> None"

text \<open>
  \<^verbatim>\<open>
  def is_valid_file(file_path):
      return os.path.isfile(file_path)
  \<close>
\<close>

definition is_valid_file :: "state \<Rightarrow> ustring \<Rightarrow> bool" where
  "is_valid_file s file_path \<longleftrightarrow> files s file_path \<noteq> None"


section \<open>The lexicon loader\<close>

text \<open>The lines of a text file, each with its newline, as iterating over the file gives them.\<close>

fun file_lines :: "ustring \<Rightarrow> ustring list" where
  "file_lines [] = []"
| "file_lines (c # cs) =
     (if c = 10 then [10] # file_lines cs
      else (case file_lines cs of [] \<Rightarrow> [[c]] | l # ls \<Rightarrow> (c # l) # ls))"

text \<open>
  \<^verbatim>\<open>dict.get(key, default)\<close> on a parsed object. \<^verbatim>\<open>json.loads\<close> gives a dictionary, so
  the members have distinct names.
\<close>

definition dict_get :: "(ustring \<times> json) list \<Rightarrow> ustring \<Rightarrow> json \<Rightarrow> json" where
  "dict_get members key dflt = (case map_of members key of None \<Rightarrow> dflt | Some v \<Rightarrow> v)"

text \<open>
  The body of the loop of \<^verbatim>\<open>load_hinglish_mapping\<close>:
  \<^verbatim>\<open>
            data = json.loads(line)
            translation = data.get('translation', {})
            hinglish = translation.get('hi_ng', '')
            hindi = translation.get('en', '')
            HINGLISH_TO_HINDI[hinglish.lower()] = hindi
  \<close>
  A value without the method that is called on it (\<^verbatim>\<open>get\<close> on what is not a
  dictionary, \<^verbatim>\<open>lower\<close> on what is not a string) is an \<^verbatim>\<open>AttributeError\<close>.
\<close>

definition load_line :: "env \<Rightarrow> lexicon \<Rightarrow> ustring \<Rightarrow> pyexn + lexicon" where
  "load_line E lexi line =
     (case json_loads E line of
        None \<Rightarrow> Inl JSONDecodeError
      | Some data \<Rightarrow>
          (case data of
             JObj members \<Rightarrow>
               (case dict_get members (str ''translation'') (JObj []) of
                  JObj translation \<Rightarrow>
                    (case dict_get translation (str ''hi_ng'') (JStr []) of
                       JStr hinglish \<Rightarrow>
                         Inr (AList.update (str_lower E hinglish)
                                (dict_get translation (str ''en'') (JStr [])) lexi)
                     | _ \<Rightarrow> Inl AttributeError)
                | _ \<Rightarrow> Inl AttributeError)
           | _ \<Rightarrow> Inl AttributeError))"

text \<open>
  The loop stops at the first line that raises; the entries stored before it stay in
  the dictionary.
\<close>

fun load_lines :: "env \<Rightarrow> ustring list \<Rightarrow> lexicon \<Rightarrow> pyexn option \<times> lexicon" where
  "load_lines E [] lexi = (None, lexi)"
| "load_lines E (line # rest) lexi =
     (case load_line E lexi line of
        Inl e \<Rightarrow> (Some e, lexi)
      | Inr lexi' \<Rightarrow> load_lines E rest lexi')"

text \<open>
  \<^verbatim>\<open>
  def load_hinglish_mapping(file_path):
      with open(file_path, 'r', encoding='utf-8') as f:
          for line in f:
              ...
  \<close>
  The result is the exception that leaves the function, if one does, and the state.
\<close>

definition load_hinglish_mapping :: "env \<Rightarrow> state \<Rightarrow> ustring \<Rightarrow> pyexn option \<times> state" where
  "load_hinglish_mapping E s file_path =
     (case files s file_path of
        None \<Rightarrow> (Some FileNotFoundError, s)
      | Some content \<Rightarrow>
          (case load_lines E (file_lines content) (HINGLISH_TO_HINDI s) of
             (e, lexi) \<Rightarrow> (e, s\<lparr>HINGLISH_TO_HINDI := lexi\<rparr>)))"


section \<open>The transcript writer\<close>

text \<open>\<^verbatim>\<open>str.split()\<close>: the maximal runs of characters that are not whitespace.\<close>

function split_ws :: "(nat \<Rightarrow> bool) \<Rightarrow> ustring \<Rightarrow> ustring list" where
  "split_ws sp [] = []"
| "split_ws sp (c # cs) =
     (if sp c then split_ws sp cs
      else takeWhile (\<lambda>x. \<not> sp x) (c # cs) # split_ws sp (dropWhile (\<lambda>x. \<not> sp x) cs))"
  by pat_completeness auto
termination
  by (relation "measure (\<lambda>(sp, s). length s)")
     (auto simp: length_dropWhile_le less_Suc_eq_le)

text \<open>One line of the score list: \<^verbatim>\<open>f"\n  - {word} ({confidence:.2f})"\<close>.\<close>

definition score_line :: "env \<Rightarrow> ustring \<times> pyfloat \<Rightarrow> ustring" where
  "score_line E wc =
     [10] @ str ''  - '' @ fst wc @ str '' ('' @ fmt2f E (snd wc) @ str '')''"

text \<open>
  What the \<^verbatim>\<open>with\<close> block writes:
  \<^verbatim>\<open>
            f.write(f"{base_filename}:\n")
            f.write(transcript)
            if confidence_scores:
                for word, confidence in zip(transcript.split(), confidence_scores):
                    f.write(f"\n  - {word} ({confidence:.2f})")
  \<close>
\<close>

definition transcript_content ::
  "env \<Rightarrow> ustring \<Rightarrow> ustring \<Rightarrow> pyfloat list option \<Rightarrow> ustring" where
  "transcript_content E base_filename transcript confidence_scores =
     base_filename @ str '':'' @ [10] @ transcript @
     (case confidence_scores of
        None \<Rightarrow> []
      | Some scores \<Rightarrow>
          if scores = [] then []
          else concat (map (score_line E) (zip (split_ws (is_space E) transcript) scores)))"

definition output_path :: "env \<Rightarrow> ustring \<Rightarrow> ustring" where
  "output_path E file_path = fst (splitext E (basename E file_path)) @ str ''-transcript.txt''"

text \<open>
  \<^verbatim>\<open>
  def create_transcript_file(file_path, transcript, confidence_scores=None):
      base_filename, _ = os.path.splitext(os.path.basename(file_path))
      output_file_path = f"{base_filename}-transcript.txt"

      if os.path.exists(output_file_path):
          logging.info(f"Output file '{output_file_path}' already exists. Skipping.")
          return

      try:
          with open(output_file_path, 'w', encoding='utf-8') as f:
              ...
      except Exception as e:
          logging.error(f"Error while creating transcript file: {e}")
  \<close>
\<close>

definition create_transcript_file ::
  "env \<Rightarrow> state \<Rightarrow> ustring \<Rightarrow> ustring \<Rightarrow> pyfloat list option \<Rightarrow> state" where
  "create_transcript_file E s file_path transcript confidence_scores =
     (let base_filename = fst (splitext E (basename E file_path));
          output_file_path = base_filename @ str ''-transcript.txt''
      in if path_exists s output_file_path then s
         else if output_file_path \<in> unwritable s then s
         else s\<lparr>files := (files s)(output_file_path \<mapsto>
                   transcript_content E base_filename transcript confidence_scores)\<rparr>)"


section \<open>The audio pipeline\<close>

definition record_call :: "call \<Rightarrow> state \<Rightarrow> state" where
  "record_call c s = s\<lparr>calls := calls s @ [c]\<rparr>"

text \<open>
  \<^verbatim>\<open>
  def detect_and_transcribe(file_path):
      try:
          recognizer = sr.Recognizer()
          with sr.AudioFile(file_path) as source:
              audio_data = recognizer.record(source)
          transcript = recognizer.recognize_google(audio_data, language="hi-IN")
          preprocessed_transcript = preprocess_text(transcript)
          detected_language = detect(preprocessed_transcript)
          logging.info(f"Detected language: {detected_language}")
          return detected_language, preprocessed_transcript
      except sr.UnknownValueError:
          ...
          return None, None
      except sr.RequestError as e:
          ...
          return None, None
      except Exception as e:
          ...
          return None, None
  \<close>
  The function returns either both values or \<^verbatim>\<open>(None, None)\<close>, which is \<open>None\<close> here.
  Every exception raised inside, that of \<^verbatim>\<open>preprocess_text\<close> included, is caught.
\<close>

definition detect_and_transcribe ::
  "env \<Rightarrow> state \<Rightarrow> ustring \<Rightarrow> (ustring \<times> ustring) option \<times> state" where
  "detect_and_transcribe E s file_path =
     (let s1 = record_call (Recognize file_path) s
      in case recognize_google E file_path of
           Heard transcript \<Rightarrow>
             (case preprocess_text E (HINGLISH_TO_HINDI s1) transcript of
                Inl e \<Rightarrow> (None, s1)
              | Inr preprocessed_transcript \<Rightarrow>
                  (let s2 = record_call (Detect preprocessed_transcript) s1
                   in case detect E preprocessed_transcript of
                        None \<Rightarrow> (None, s2)
                      | Some detected_language \<Rightarrow>
                          (Some (detected_language, preprocessed_transcript), s2)))
         | UnknownValueError \<Rightarrow> (None, s1)
         | RequestError \<Rightarrow> (None, s1)
         | OtherError \<Rightarrow> (None, s1))"

text \<open>
  \<^verbatim>\<open>
  def translate_text(text, source_lang):
      translator = Translator()
      try:
          translated_text = translator.translate(text, src=source_lang, dest='en').text
          return translated_text
      except Exception as e:
          logging.error(f"Translation failed: {e}")
          return None
  \<close>
  The constructor \<^verbatim>\<open>Translator()\<close> is taken not to raise.
\<close>

definition translate_text :: "env \<Rightarrow> state \<Rightarrow> ustring \<Rightarrow> ustring \<Rightarrow> ustring option \<times> state"
  where
  "translate_text E s text source_lang =
     (translator E text source_lang, record_call (Translate text source_lang) s)"

text \<open>
  \<^verbatim>\<open>
  def translate_audio_to_text(file_path):
      detected_language, transcript = detect_and_transcribe(file_path)
      if transcript is None:
          return None

      # Translate transcript to English if needed
      if detected_language != 'en':  # Only translate if not already in English
          translated_text = translate_text(transcript, detected_language)
          if translated_text:
              return translated_text
      return transcript
  \<close>
  \<^verbatim>\<open>if translated_text\<close> fails for \<^verbatim>\<open>None\<close> and for the empty string.
\<close>

definition translate_audio_to_text :: "env \<Rightarrow> state \<Rightarrow> ustring \<Rightarrow> ustring option \<times> state" where
  "translate_audio_to_text E s file_path =
     (case detect_and_transcribe E s file_path of
        (None, s1) \<Rightarrow> (None, s1)
      | (Some (detected_language, transcript), s1) \<Rightarrow>
          if detected_language \<noteq> str ''en'' then
            (case translate_text E s1 transcript detected_language of
               (translated_text, s2) \<Rightarrow>
                 if translated_text \<noteq> None \<and> translated_text \<noteq> Some []
                 then (translated_text, s2)
                 else (Some transcript, s2))
          else (Some transcript, s1))"

text \<open>
  \<^verbatim>\<open>
  def process_file(file_path, translate_to_english=False):
      if not is_valid_file(file_path) or not is_supported_format(file_path):
          logging.error(...)
          return

      transcript = translate_audio_to_text(file_path)
      if transcript is None:
          return

      create_transcript_file(file_path, transcript)
  \<close>
  The parameter \<^verbatim>\<open>translate_to_english\<close> is not used in the body.
\<close>

definition process_file :: "env \<Rightarrow> state \<Rightarrow> ustring \<Rightarrow> bool \<Rightarrow> state" where
  "process_file E s file_path translate_to_english =
     (if \<not> is_valid_file s file_path \<or> \<not> is_supported_format E file_path then s
      else
        (case translate_audio_to_text E s file_path of
           (None, s1) \<Rightarrow> s1
         | (Some transcript, s1) \<Rightarrow> create_transcript_file E s1 file_path transcript None))"


section \<open>The directory walker\<close>

text \<open>
  \<^verbatim>\<open>os.walk(top)\<close>, top down: the triple of the directory itself, then the walks of its
  subdirectories in order. The directory structure is read from \<open>dirs\<close> as it is when
  the walk starts; the files the pipeline writes during a walk are transcripts, whose
  extension \<^verbatim>\<open>.txt\<close> is not a supported format.
\<close>

fun walk_tree :: "env \<Rightarrow> ustring \<Rightarrow> dtree \<Rightarrow> (ustring \<times> ustring list \<times> ustring list) list"
  where
  "walk_tree E topdir (DTree subdirs filenames) =
     (topdir, map fst subdirs, filenames)
       # concat (map (\<lambda>(name, t). walk_tree E (path_join E topdir name) t) subdirs)"

text \<open>
  The argument handed to \<^verbatim>\<open>os.walk\<close> is
  \<^verbatim>\<open>directory_path if recursive else [directory_path]\<close>: a path or a list. \<^verbatim>\<open>os.walk\<close>
  starts with \<^verbatim>\<open>os.fspath(top)\<close>, which raises \<^verbatim>\<open>TypeError\<close> for a list, at the first
  step of the iteration. A path that is no directory gives an empty walk.
\<close>

datatype walk_arg = PathArg ustring | ListArg "ustring list"

definition os_walk ::
  "env \<Rightarrow> state \<Rightarrow> walk_arg \<Rightarrow> pyexn + (ustring \<times> ustring list \<times> ustring list) list" where
  "os_walk E s topdir =
     (case topdir of
        PathArg p \<Rightarrow> Inr (case dirs s p of None \<Rightarrow> [] | Some t \<Rightarrow> walk_tree E p t)
      | ListArg ps \<Rightarrow> Inl TypeError)"

text \<open>
  \<^verbatim>\<open>
  def process_directory(directory_path, recursive, translate_to_english=False):
      if not os.path.isdir(directory_path):
          logging.error(...)
          return

      for root, _, files in os.walk(directory_path if recursive else [directory_path]):
          for file in files:
              file_path = os.path.join(root, file)
              if is_supported_format(file_path):
                  process_file(file_path, translate_to_english)
  \<close>
\<close>

definition process_entry :: "env \<Rightarrow> bool \<Rightarrow> ustring \<Rightarrow> ustring \<Rightarrow> state \<Rightarrow> state" where
  "process_entry E translate_to_english root file s =
     (let file_path = path_join E root file
      in if is_supported_format E file_path then process_file E s file_path translate_to_english
         else s)"

definition process_triple ::
  "env \<Rightarrow> bool \<Rightarrow> ustring \<times> ustring list \<times> ustring list \<Rightarrow> state \<Rightarrow> state" where
  "process_triple E translate_to_english triple s =
     (case triple of (root, dirnames, filenames) \<Rightarrow>
        fold (process_entry E translate_to_english root) filenames s)"

definition process_directory ::
  "env \<Rightarrow> state \<Rightarrow> ustring \<Rightarrow> bool \<Rightarrow> bool \<Rightarrow> pyexn option \<times> state" where
  "process_directory E s directory_path recursive translate_to_english =
     (if dirs s directory_path = None then (None, s)
      else
        (case os_walk E s (if recursive then PathArg directory_path
                           else ListArg [directory_path]) of
           Inl e \<Rightarrow> (Some e, s)
         | Inr triples \<Rightarrow> (None, fold (process_triple E translate_to_english) triples s)))"


section \<open>The entry point\<close>

text \<open>The namespace that \<^verbatim>\<open>parse_args\<close> returns.\<close>

record args =
  input_file_path :: "ustring option"
  input_directory_path :: "ustring option"
  args_recursive :: bool
  args_translate :: bool
  args_noise_reduction :: bool

text \<open>The path in \<^verbatim>\<open>main\<close>: \<^verbatim>\<open>"F:\\Darpg hackathon\\hinglish.txt"\<close>.\<close>

definition DATASET_PATH :: ustring where
  "DATASET_PATH = str ''F:'' @ [92] @ str ''Darpg hackathon'' @ [92] @ str ''hinglish.txt''"

text \<open>
  \<^verbatim>\<open>
  def main():
      args = parse_args()

      load_hinglish_mapping("F:\\Darpg hackathon\\hinglish.txt")

      if args.input_file_path:
          file_path = args.input_file_path
          process_file(file_path, args.translate)

      elif args.input_directory_path:
          process_directory(args.input_directory_path, args.recursive, args.translate)

      logging.info("Processing completed.")
  \<close>
  An exception that leaves \<^verbatim>\<open>load_hinglish_mapping\<close> or \<^verbatim>\<open>process_directory\<close> leaves
  \<^verbatim>\<open>main\<close> too. An option that is absent or the empty string fails its test.
\<close>

definition main :: "env \<Rightarrow> state \<Rightarrow> args \<Rightarrow> pyexn option \<times> state" where
  "main E s a =
     (case load_hinglish_mapping E s DATASET_PATH of
        (Some e, s1) \<Rightarrow> (Some e, s1)
      | (None, s1) \<Rightarrow>
          (case input_file_path a of
             Some file_path \<Rightarrow>
               if file_path \<noteq> [] then (None, process_file E s1 file_path (args_translate a))
               else
                 (case input_directory_path a of
                    Some d \<Rightarrow>
                      if d \<noteq> [] then process_directory E s1 d (args_recursive a) (args_translate a)
                      else (None, s1)
                  | None \<Rightarrow> (None, s1))
           | None \<Rightarrow>
               (case input_directory_path a of
                  Some d \<Rightarrow>
                    if d \<noteq> [] then process_directory E s1 d (args_recursive a) (args_translate a)
                    else (None, s1)
                | None \<Rightarrow> (None, s1))))"


section \<open>An environment for worked examples\<close>

text \<open>
  The POSIX flavour of \<^verbatim>\<open>os.path\<close>, and Python's Unicode tables cut down to ASCII and
  the Devanagari block (which has no case); the examples use no other character.
  The collaborators of \<open>posix_env\<close> answer nothing: examples that need a collaborator
  update the field they need.
\<close>

definition ascii_lower :: "nat \<Rightarrow> nat" where
  "ascii_lower c = (if 65 \<le> c \<and> c \<le> 90 then c + 32 else c)"

definition ascii_upper :: "nat \<Rightarrow> nat" where
  "ascii_upper c = (if 97 \<le> c \<and> c \<le> 122 then c - 32 else c)"

definition demo_is_word :: "nat \<Rightarrow> bool" where
  "demo_is_word c =
     ((48 \<le> c \<and> c \<le> 57) \<or> (65 \<le> c \<and> c \<le> 90) \<or> c = 95 \<or> (97 \<le> c \<and> c \<le> 122)
      \<or> (2308 \<le> c \<and> c \<le> 2361) \<or> (2392 \<le> c \<and> c \<le> 2401) \<or> (2406 \<le> c \<and> c \<le> 2415))"

definition demo_is_space :: "nat \<Rightarrow> bool" where
  "demo_is_space c = ((9 \<le> c \<and> c \<le> 13) \<or> (28 \<le> c \<and> c \<le> 32))"

definition demo_ci_class :: "nat \<Rightarrow> nat list" where
  "demo_ci_class c = remdups [c, ascii_lower c, ascii_upper c]"

text \<open>\<^verbatim>\<open>posixpath.basename\<close>: what follows the last slash.\<close>

definition posix_basename :: "ustring \<Rightarrow> ustring" where
  "posix_basename p = drop (nat (rfind 47 p + 1)) p"

text \<open>\<^verbatim>\<open>posixpath.join\<close> of two components.\<close>

definition posix_join :: "ustring \<Rightarrow> ustring \<Rightarrow> ustring" where
  "posix_join a b =
     (if take 1 b = [47] then b
      else if a = [] \<or> drop (length a - 1) a = [47] then a @ b
      else a @ [47] @ b)"

text \<open>
  The format \<^verbatim>\<open>.2f\<close> of a finite float \<open>m * 2 ^ e\<close>: the value is rounded to hundredths,
  a tie going to the even neighbour, and written with its sign, its integer part and two
  decimals.
\<close>

function decimal :: "nat \<Rightarrow> ustring" where
  "decimal n = (if n < 10 then [48 + n] else decimal (n div 10) @ [48 + n mod 10])"
  by pat_completeness auto
termination
  by (relation "measure (\<lambda>n. n)") auto

definition hundredths :: "pyfloat \<Rightarrow> nat" where
  "hundredths x =
     (case x of PyFloat m e \<Rightarrow>
        if 0 \<le> e then nat \<bar>m\<bar> * 2 ^ nat e * 100
        else
          (let num = nat \<bar>m\<bar> * 100; den = 2 ^ nat (- e); q = num div den; r = num mod den
           in if den < 2 * r \<or> (2 * r = den \<and> odd q) then q + 1 else q))"

definition format_2f :: "pyfloat \<Rightarrow> ustring" where
  "format_2f x =
     (case x of PyFloat m e \<Rightarrow>
        (if m < 0 then str ''-'' else [])
        @ decimal (hundredths x div 100) @ str ''.''
        @ [48 + hundredths x mod 100 div 10, 48 + hundredths x mod 10])"

definition posix_env :: env where
  "posix_env =
     \<lparr> path_seps = [47],
       basename = posix_basename,
       path_join = posix_join,
       str_lower = map ascii_lower,
       is_space = demo_is_space,
       is_word = demo_is_word,
       ci_class = demo_ci_class,
       re_sub_other = (\<lambda>pattern repl string. Inl ReError),
       json_loads = (\<lambda>line. None),
       fmt2f = format_2f,
       recognize_google = (\<lambda>path. OtherError),
       detect = (\<lambda>text. None),
       translator = (\<lambda>text src. None) \<rparr>"


text \<open>A string between double quotes, as a line of JSON has it.\<close>

definition quoted :: "ustring \<Rightarrow> ustring" where
  "quoted s = [34] @ s @ [34]"

text \<open>
  The dataset line \<^verbatim>\<open>{"translation": {"hi_ng": "Naam", "en": "\<dots>"}}\<close> with the Devanagari
  word \<open>[2344, 2366, 2350]\<close> as its \<^verbatim>\<open>en\<close> field.
\<close>

definition naam_line :: ustring where
  "naam_line =
     str ''{'' @ quoted (str ''translation'') @ str '': {'' @ quoted (str ''hi_ng'') @ str '': ''
       @ quoted (str ''Naam'') @ str '', '' @ quoted (str ''en'') @ str '': ''
       @ quoted [2344, 2366, 2350] @ str ''}}'' @ [10]"

text \<open>
  \<^verbatim>\<open>json.loads\<close> on the lines that the examples use: the empty object, the line above,
  and lines that are not JSON (every other line the examples contain).
\<close>

definition sample_json_loads :: "ustring \<Rightarrow> json option" where
  "sample_json_loads line =
     (if line = str ''{}'' @ [10] then Some (JObj [])
      else if line = naam_line
      then Some (JObj [(str ''translation'',
                        JObj [(str ''hi_ng'', JStr (str ''Naam'')),
                              (str ''en'', JStr [2344, 2366, 2350])])])
      else None)"

text \<open>The state at the start: an empty dictionary, an empty file system, no call made.\<close>

definition initial_state :: state where
  "initial_state =
     \<lparr> HINGLISH_TO_HINDI = [], files = Map.empty, dirs = Map.empty, unwritable = {},
       calls = [] \<rparr>"

definition sample_env :: env where
  "sample_env = posix_env\<lparr>json_loads := sample_json_loads\<rparr>"

text \<open>A dataset whose second line is not JSON, and one with a record without fields.\<close>

definition broken_dataset_state :: state where
  "broken_dataset_state =
     initial_state\<lparr>files := [DATASET_PATH \<mapsto> naam_line @ str ''not json'' @ [10] @ str ''{}'' @ [10]]\<rparr>"

definition empty_key_state :: state where
  "empty_key_state = initial_state\<lparr>files := [DATASET_PATH \<mapsto> naam_line @ str ''{}'' @ [10]]\<rparr>"

definition sample_args :: args where
  "sample_args =
     \<lparr> input_file_path = Some (str ''clip.mp3''), input_directory_path = None,
       args_recursive = False, args_translate = False, args_noise_reduction = False \<rparr>"

text \<open>
  A pipeline run: the lexicon \<^verbatim>\<open>{"naam": "\<dots>"}\<close>, an audio file \<^verbatim>\<open>clip.mp3\<close> in which
  \<^verbatim>\<open>mera naam hai\<close> is heard, a detector that answers \<^verbatim>\<open>hi\<close> and a translator that answers
  \<^verbatim>\<open>my name is\<close>, that answers the empty string, or that raises.
\<close>

definition naam_lexicon :: lexicon where
  "naam_lexicon = [(str ''naam'', JStr [2344, 2366, 2350])]"

definition hindi_env :: env where
  "hindi_env =
     sample_env\<lparr> recognize_google := (\<lambda>path. Heard (str ''mera naam hai'')),
                 detect := (\<lambda>s. Some (str ''hi'')),
                 translator := (\<lambda>s src. Some (str ''my name is'')) \<rparr>"

definition pipeline_state :: state where
  "pipeline_state =
     initial_state\<lparr> HINGLISH_TO_HINDI := naam_lexicon, files := [str ''clip.mp3'' \<mapsto> []] \<rparr>"

definition artifact_state :: state where
  "artifact_state =
     pipeline_state\<lparr> files := (files pipeline_state)(str ''clip-transcript.txt'' \<mapsto> str ''old'') \<rparr>"

definition blank_translation_env :: env where
  "blank_translation_env = hindi_env\<lparr> translator := (\<lambda>s src. Some []) \<rparr>"

definition failing_translation_env :: env where
  "failing_translation_env = hindi_env\<lparr> translator := (\<lambda>s src. None) \<rparr>"

definition naam_normalized :: ustring where
  "naam_normalized = str ''mera '' @ [2344, 2366, 2350] @ str '' hai''"

text \<open>
  The directory of the specification's example: \<^verbatim>\<open>A/\<close> with \<^verbatim>\<open>A/x.wav\<close> and
  \<^verbatim>\<open>A/sub/y.wav\<close>.
\<close>

definition walk_state :: state where
  "walk_state =
     initial_state
       \<lparr> HINGLISH_TO_HINDI := naam_lexicon,
         files := [str ''A/x.wav'' \<mapsto> [], str ''A/sub/y.wav'' \<mapsto> []],
         dirs := [str ''A'' \<mapsto> DTree [(str ''sub'', DTree [] [str ''y.wav''])] [str ''x.wav''],
                  str ''A/sub'' \<mapsto> DTree [] [str ''y.wav'']] \<rparr>"

section \<open>Properties of the file classification\<close>

lemma splitext_clip_MP3: "splitext posix_env (str ''clip.MP3'') = (str ''clip'', str ''.MP3'')"
  by (simp add: splitext_def sep_index_def rfind_def posix_env_def)

lemma splitext_clip_ogg: "splitext posix_env (str ''clip.ogg'') = (str ''clip'', str ''.ogg'')"
  by (simp add: splitext_def sep_index_def rfind_def posix_env_def)

text \<open>
  C9. Format gating: \<open>is_supported_format\<close> holds of a path exactly when the lower-cased
  extension of the path, as \<^verbatim>\<open>os.path.splitext\<close> cuts it off, is one of the seven
  supported formats. In particular it holds of \<^verbatim>\<open>clip.MP3\<close> and not of \<^verbatim>\<open>clip.ogg\<close>.
\<close>

theorem is_supported_format_gating:
  "(is_supported_format E p \<longleftrightarrow>
      str_lower E (snd (splitext E p)) \<in>
        {str ''.m4a'', str ''.mp3'', str ''.webm'', str ''.mp4'', str ''.mpga'', str ''.wav'',
         str ''.mpeg''})
   \<and> is_supported_format posix_env (str ''clip.MP3'')
   \<and> \<not> is_supported_format posix_env (str ''clip.ogg'')"
proof -
  have a: "is_supported_format posix_env (str ''clip.MP3'')"
    unfolding is_supported_format_def splitext_clip_MP3
    by (simp add: posix_env_def SUPPORTED_FORMATS_def ascii_lower_def)
  have b: "\<not> is_supported_format posix_env (str ''clip.ogg'')"
    unfolding is_supported_format_def splitext_clip_ogg
    by (simp add: posix_env_def SUPPORTED_FORMATS_def ascii_lower_def)
  show ?thesis
    using a b by (simp add: is_supported_format_def SUPPORTED_FORMATS_def)
qed

section \<open>Properties of the text normalizer\<close>

subsection \<open>Plain keys and values parse to themselves\<close>

lemma parse_pattern_plain:
  "\<forall>c\<in>set key. c \<notin> set SPECIAL_CHARS \<Longrightarrow>
   parse_pattern (key @ [92, 98]) 0 = Parsed (map Literal key @ [Boundary])"
  by (induction key) (auto simp: SPECIAL_CHARS_def)

lemma parse_template_plain: "92 \<notin> set r \<Longrightarrow> parse_template r = Parsed r"
  by (induction r) auto

lemma ci_equal_Nil [simp]: "ci_equal E [] w \<longleftrightarrow> w = []"
  by (simp add: ci_equal_def)

lemma ci_equal_Cons:
  "ci_equal E (k # ks) w \<longleftrightarrow> (\<exists>t ts. w = t # ts \<and> t \<in> set (ci_class E k) \<and> ci_equal E ks ts)"
  by (cases w) (auto simp: ci_equal_def)

lemma ci_equal_length: "ci_equal E key w \<Longrightarrow> length w = length key"
  by (simp add: ci_equal_def list_all2_lengthD)

lemma ci_equal_words:
  "\<forall>k\<in>set key. \<forall>t\<in>set (ci_class E k). is_word E t \<Longrightarrow> ci_equal E key w \<Longrightarrow> \<forall>t\<in>set w. is_word E t"
  by (induction key arbitrary: w) (auto simp: ci_equal_Cons)

lemma match_literals:
  "match_here E (map Literal key @ atoms) prev rest = Some res \<longleftrightarrow>
     (\<exists>w r. rest = w @ r \<and> ci_equal E key w \<and>
        match_here E atoms (if w = [] then prev else Some (last w)) r = Some res)"
proof (induction key arbitrary: prev rest)
  case Nil
  then show ?case by simp
next
  case (Cons k ks)
  show ?case
  proof (cases rest)
    case Nil
    then show ?thesis by (auto simp: ci_equal_Cons)
  next
    case (Cons t ts)
    show ?thesis
    proof (cases "t \<in> set (ci_class E k)")
      case False
      with Cons show ?thesis by (auto simp: ci_equal_Cons Cons_eq_append_conv)
    next
      case True
      have "match_here E (map Literal (k # ks) @ atoms) prev rest
              = match_here E (map Literal ks @ atoms) (Some t) ts"
        using True Cons by simp
      also have "(\<dots> = Some res) \<longleftrightarrow>
          (\<exists>w r. ts = w @ r \<and> ci_equal E ks w \<and>
             match_here E atoms (if w = [] then Some t else Some (last w)) r = Some res)"
        by (rule Cons.IH)
      also have "\<dots> \<longleftrightarrow>
          (\<exists>w r. rest = w @ r \<and> ci_equal E (k # ks) w \<and>
             match_here E atoms (if w = [] then prev else Some (last w)) r = Some res)"
        (is "?L \<longleftrightarrow> ?R")
      proof
        assume ?L
        then obtain w r where h: "ts = w @ r" "ci_equal E ks w"
          "match_here E atoms (if w = [] then Some t else Some (last w)) r = Some res" by blast
        have "rest = (t # w) @ r" using h Cons by simp
        moreover have "ci_equal E (k # ks) (t # w)" using h True by (simp add: ci_equal_Cons)
        moreover have "match_here E atoms (if t # w = [] then prev else Some (last (t # w))) r = Some res"
          using h by (cases "w = []") auto
        ultimately show ?R by blast
      next
        assume ?R
        then obtain w r where h: "rest = w @ r" "ci_equal E (k # ks) w"
          "match_here E atoms (if w = [] then prev else Some (last w)) r = Some res" by blast
        from h(2) obtain t' w' where w: "w = t' # w'" "ci_equal E ks w'"
          by (auto simp: ci_equal_Cons)
        have "ts = w' @ r" "t' = t" using h(1) w Cons by auto
        moreover have "match_here E atoms (if w' = [] then Some t else Some (last w')) r = Some res"
          using h(3) w \<open>t' = t\<close> by (cases "w' = []") auto
        ultimately show ?L using w by blast
      qed
      finally show ?thesis .
    qed
  qed
qed




lemma plain_keyD:
  "plain_key E key \<Longrightarrow>
     key \<noteq> [] \<and> (\<forall>k\<in>set key. k \<notin> set SPECIAL_CHARS)
     \<and> (\<forall>k\<in>set key. \<forall>t\<in>set (ci_class E k). is_word E t)"
  by (auto simp: plain_key_def list_all_iff)

lemma word_match:
  assumes "plain_key E key"
  shows "match_here E (Boundary # map Literal key @ [Boundary]) prev rest = Some res \<longleftrightarrow>
     (\<exists>w r. rest = w @ r \<and> w \<noteq> [] \<and> ci_equal E key w \<and> (\<forall>t\<in>set w. is_word E t) \<and>
        at_boundary E prev rest \<and> at_boundary E (Some (last w)) r \<and> res = (Some (last w), r))"
proof -
  from assms have key: "key \<noteq> []" and cls: "\<forall>k\<in>set key. \<forall>t\<in>set (ci_class E k). is_word E t"
    by (auto dest: plain_keyD)
  have ne: "w \<noteq> []" if "ci_equal E key w" for w
    using that key by (auto dest: ci_equal_length)
  show ?thesis
  proof (cases "at_boundary E prev rest")
    case False
    then show ?thesis by simp
  next
    case True
    then have "match_here E (Boundary # map Literal key @ [Boundary]) prev rest
        = match_here E (map Literal key @ [Boundary]) prev rest" by simp
    also have "(\<dots> = Some res) \<longleftrightarrow> (\<exists>w r. rest = w @ r \<and> ci_equal E key w \<and>
        match_here E [Boundary] (if w = [] then prev else Some (last w)) r = Some res)"
      by (rule match_literals)
    also have "\<dots> \<longleftrightarrow> (\<exists>w r. rest = w @ r \<and> w \<noteq> [] \<and> ci_equal E key w \<and> (\<forall>t\<in>set w. is_word E t) \<and>
        at_boundary E prev rest \<and> at_boundary E (Some (last w)) r \<and> res = (Some (last w), r))"
      using True ne ci_equal_words[OF cls]
      by (auto split: if_splits) 
    finally show ?thesis .
  qed
qed

lemma no_match_nonword:
  assumes "plain_key E key" and "rest = [] \<or> \<not> is_word E (hd rest)"
  shows "match_here E (Boundary # map Literal key @ [Boundary]) prev rest = None"
proof (rule ccontr)
  assume "match_here E (Boundary # map Literal key @ [Boundary]) prev rest \<noteq> None"
  then obtain res where "match_here E (Boundary # map Literal key @ [Boundary]) prev rest = Some res"
    by auto
  from word_match[OF assms(1), THEN iffD1, OF this]
  obtain w r where "rest = w @ r" "w \<noteq> []" "\<forall>t\<in>set w. is_word E t"
    by blast
  then show False using assms(2) by (cases w) auto
qed

lemma no_match_inside:
  assumes "is_word E p" and "rest \<noteq> []" and "is_word E (hd rest)"
  shows "match_here E (Boundary # atoms) (Some p) rest = None"
  using assms by (cases rest) (auto simp: at_boundary_def)

lemma takeWhile_unique:
  assumes "rest = w @ r" "\<forall>t\<in>set w. P t" "r = [] \<or> \<not> P (hd r)"
  shows "takeWhile P rest = w \<and> dropWhile P rest = r"
  using assms by (cases r) (auto simp: takeWhile_append1 dropWhile_append1 takeWhile_eq_all_conv)

lemma at_boundary_end:
  "is_word E p \<Longrightarrow> r = [] \<or> \<not> is_word E (hd r) \<Longrightarrow> at_boundary E (Some p) r"
  by (cases r) (auto simp: at_boundary_def)

lemma match_at_start:
  assumes wk: "plain_key E key"
    and prev: "case prev of None \<Rightarrow> True | Some p \<Rightarrow> \<not> is_word E p"
    and c: "is_word E c"
  shows "match_here E (Boundary # map Literal key @ [Boundary]) prev (c # cs) =
     (if ci_equal E key (takeWhile (is_word E) (c # cs))
      then Some (Some (last (takeWhile (is_word E) (c # cs))), dropWhile (is_word E) cs)
      else None)"
proof -
  let ?W = "is_word E"
  let ?w = "takeWhile ?W (c # cs)" and ?r = "dropWhile ?W (c # cs)"
  have r: "?r = dropWhile ?W cs" using c by simp
  have wne: "?w \<noteq> []" using c by simp
  have b0: "at_boundary E prev (c # cs)"
    using prev c by (auto simp: at_boundary_def split: option.splits)
  have lastw: "?W (last ?w)"
    using wne by (metis last_in_set set_takeWhileD)
  have "?r = [] \<or> \<not> ?W (hd ?r)"
    using hd_dropWhile[of ?W "c # cs"] by blast
  then have b1: "at_boundary E (Some (last ?w)) ?r"
    using lastw by (rule at_boundary_end[rotated])
  show ?thesis
  proof (cases "ci_equal E key ?w")
    case True
    have "\<exists>w r. c # cs = w @ r \<and> w \<noteq> [] \<and> ci_equal E key w \<and> (\<forall>t\<in>set w. ?W t) \<and>
        at_boundary E prev (c # cs) \<and> at_boundary E (Some (last w)) r
        \<and> (Some (last ?w), ?r) = (Some (last w), r)"
      apply (rule exI[of _ ?w], rule exI[of _ ?r])
      using True wne b0 b1 by (auto simp del: takeWhile.simps dropWhile.simps dest: set_takeWhileD)
    then have "match_here E (Boundary # map Literal key @ [Boundary]) prev (c # cs)
        = Some (Some (last ?w), ?r)"
      by (rule word_match[OF wk, THEN iffD2])
    then show ?thesis using True r by (simp del: takeWhile.simps dropWhile.simps)
  next
    case False
    have "match_here E (Boundary # map Literal key @ [Boundary]) prev (c # cs) = None"
    proof (rule ccontr)
      assume "match_here E (Boundary # map Literal key @ [Boundary]) prev (c # cs) \<noteq> None"
      then obtain res where "match_here E (Boundary # map Literal key @ [Boundary]) prev (c # cs) = Some res"
        by auto
      from word_match[OF wk, THEN iffD1, OF this]
      obtain w r where h: "c # cs = w @ r" "w \<noteq> []" "ci_equal E key w" "\<forall>t\<in>set w. ?W t"
          "at_boundary E (Some (last w)) r"
        by blast
      have "?W (last w)" using h(2,4) by auto
      then have "r = [] \<or> \<not> ?W (hd r)" using h(5) by (cases r) (auto simp: at_boundary_def)
      then have "?w = w" using takeWhile_unique[OF h(1) h(4)] by blast
      then show False using False h(3) by simp
    qed
    then show ?thesis using False by (simp del: takeWhile.simps dropWhile.simps)
  qed
qed

lemma sub_from_inside:
  assumes wk: "plain_key E key"
  shows "is_word E p \<Longrightarrow> \<forall>t\<in>set u. is_word E t \<Longrightarrow> r = [] \<or> \<not> is_word E (hd r) \<Longrightarrow>
     sub_from E (Boundary # map Literal key @ [Boundary]) hindi (Some p) (u @ r)
       = u @ sub_from E (Boundary # map Literal key @ [Boundary]) hindi (Some (last (p # u))) r"
proof (induction u arbitrary: p)
  case Nil
  then show ?case by simp
next
  case (Cons t u)
  have "match_here E (Boundary # map Literal key @ [Boundary]) (Some p) ((t # u) @ r) = None"
    using Cons.prems by (intro no_match_inside) auto
  then have "sub_from E (Boundary # map Literal key @ [Boundary]) hindi (Some p) ((t # u) @ r)
      = t # sub_from E (Boundary # map Literal key @ [Boundary]) hindi (Some t) (u @ r)"
    by (subst sub_from.simps) simp
  also have "\<dots> = t # u @ sub_from E (Boundary # map Literal key @ [Boundary]) hindi (Some (last (t # u))) r"
    using Cons.IH[of t] Cons.prems by simp
  finally show ?case by simp
qed

lemma sub_from_spec:
  assumes wk: "plain_key E key"
  shows "(case prev of None \<Rightarrow> True | Some p \<Rightarrow> \<not> is_word E p) \<or> s = [] \<or> \<not> is_word E (hd s) \<Longrightarrow>
     sub_from E (Boundary # map Literal key @ [Boundary]) hindi prev s
       = spec_replace_words E key hindi s"
  using wk
proof (induction E key hindi s arbitrary: prev rule: spec_replace_words.induct)
  case (1 E key hindi)
  have "match_here E (Boundary # map Literal key @ [Boundary]) prev [] = None"
    using 1 by (intro no_match_nonword) auto
  then show ?case by (subst sub_from.simps) simp
next
  case (2 E key hindi c cs)
  let ?pat = "Boundary # map Literal key @ [Boundary]"
  let ?W = "is_word E"
  show ?case
  proof (cases "?W c")
    case False
    have "match_here E ?pat prev (c # cs) = None"
      using 2 False by (intro no_match_nonword) auto
    then have "sub_from E ?pat hindi prev (c # cs) = c # sub_from E ?pat hindi (Some c) cs"
      by (subst sub_from.simps) simp
    also have "sub_from E ?pat hindi (Some c) cs = spec_replace_words E key hindi cs"
      using "2.IH"(2)[OF False, of "Some c"] False "2.prems" by simp
    finally show ?thesis using False by simp
  next
    case True
    let ?w = "takeWhile ?W (c # cs)" and ?r = "dropWhile ?W cs"
    have prev: "case prev of None \<Rightarrow> True | Some p \<Rightarrow> \<not> ?W p"
      using "2.prems"(1) True by auto
    have r: "?r = [] \<or> \<not> ?W (hd ?r)"
      using hd_dropWhile[of ?W cs] by auto
    have IH: "sub_from E ?pat hindi pv ?r = spec_replace_words E key hindi ?r" for pv
      using "2.IH"(1)[OF True refl, of pv] r "2.prems"(2) by blast
    have m: "match_here E ?pat prev (c # cs) =
       (if ci_equal E key ?w then Some (Some (last ?w), ?r) else None)"
      using match_at_start[OF "2.prems"(2) prev True] .
    show ?thesis
    proof (cases "ci_equal E key ?w")
      case eq: True
      have "length ?r < length (c # cs)"
        using length_dropWhile_le[of ?W cs] by simp
      then have "sub_from E ?pat hindi prev (c # cs) = hindi @ sub_from E ?pat hindi (Some (last ?w)) ?r"
        using m eq by (subst sub_from.simps) (simp del: takeWhile.simps)
      then show ?thesis using IH eq True by (simp del: takeWhile.simps) 
    next
      case ne: False
      have "sub_from E ?pat hindi prev (c # cs) = c # sub_from E ?pat hindi (Some c) cs"
        using m ne by (subst sub_from.simps) (simp del: takeWhile.simps)
      also have "cs = takeWhile ?W cs @ ?r" by simp
      then have "sub_from E ?pat hindi (Some c) cs
          = takeWhile ?W cs @ sub_from E ?pat hindi (Some (last (c # takeWhile ?W cs))) ?r"
        using sub_from_inside[OF "2.prems"(2) True _ r, of "takeWhile ?W cs" hindi]
        by (metis set_takeWhileD)
      finally show ?thesis using IH ne True by (simp del: takeWhile.simps) (simp add: True)
    qed
  qed
qed


lemma parse_word_pattern:
  assumes "plain_key E key"
  shows "parse_pattern (92 # 98 # key @ [92, 98]) 0 = Parsed (Boundary # map Literal key @ [Boundary])"
proof -
  have "\<forall>c\<in>set key. c \<notin> set SPECIAL_CHARS" using assms by (auto dest: plain_keyD)
  then show ?thesis by (simp add: parse_pattern_plain)
qed

lemma re_sub_plain:
  assumes "plain_key E key" and "92 \<notin> set hindi"
  shows "re_sub E ([92, 98] @ key @ [92, 98]) (JStr hindi) s = Inr (spec_replace_words E key hindi s)"
proof -
  have "sub_from E (Boundary # map Literal key @ [Boundary]) hindi None s
      = spec_replace_words E key hindi s"
    by (rule sub_from_spec[OF assms(1)]) simp
  then show ?thesis
    by (simp add: re_sub_def parse_word_pattern[OF assms(1)]
          parse_template_plain[OF assms(2)] del: sub_from.simps parse_pattern.simps)
qed

lemma preprocess_text_plain:
  "plain_lexicon E lexi \<Longrightarrow>
   preprocess_text E lexi s = Inr (spec_normalize E (map (\<lambda>(k, v). (k, hindi_text v)) lexi) s)"
proof (induction lexi arbitrary: s)
  case Nil
  then show ?case by simp
next
  case (Cons kv lexi)
  obtain k v where kv: "kv = (k, v)" by (cases kv)
  from Cons.prems kv have pk: "plain_key E k" and pv: "plain_value v" and rest: "plain_lexicon E lexi"
    by (auto simp: plain_lexicon_def)
  from pv obtain hindi where v: "v = JStr hindi" and nb: "92 \<notin> set hindi"
    by (cases v) (auto simp: plain_value_def)
  have "re_sub E ([92, 98] @ k @ [92, 98]) v s = Inr (spec_replace_words E k hindi s)"
    unfolding v by (rule re_sub_plain[OF pk nb])
  then show ?case
    using Cons.IH[OF rest] by (simp add: kv v hindi_text_def)
qed

subsection \<open>Worked examples and the claims on the normalizer\<close>

lemmas demo_tables = posix_env_def demo_is_word_def demo_ci_class_def ascii_lower_def ascii_upper_def
  at_boundary_def re_sub_def SPECIAL_CHARS_def template_escape_def ascii_alnum_def

lemma naam_example_1:
  "preprocess_text posix_env [(str ''naam'', JStr [2344, 2366, 2350])] (str ''mera naam hai'')
     = Inr (str ''mera '' @ [2344, 2366, 2350] @ str '' hai'')"
  by (simp add: demo_tables)

lemma naam_example_2:
  "preprocess_text posix_env [(str ''naam'', JStr [2344, 2366, 2350])] (str ''naamkaran'')
     = Inr (str ''naamkaran'')"
  by (simp add: demo_tables)

lemma naam_example_3:
  "preprocess_text posix_env [(str ''naam'', JStr [2344, 2366, 2350])] (str ''NAAM'')
     = Inr [2344, 2366, 2350]"
  by (simp add: demo_tables)

lemma naam_plain: "plain_lexicon posix_env [(str ''naam'', JStr [2344, 2366, 2350])]"
  by (simp add: plain_lexicon_def plain_key_def plain_value_def demo_tables)

text \<open>
  For a lexicon whose keys and values are plain the normalizer computes the
  specification's normalization, by \<open>preprocess_text_plain\<close>; an instance:
\<close>

lemma naam_example_4:
  "preprocess_text posix_env [(str ''naam'', JStr [2344, 2366, 2350])] (str ''ek naam, do NAAM'')
     = Inr (spec_normalize posix_env [(str ''naam'', [2344, 2366, 2350])] (str ''ek naam, do NAAM''))
   \<and> spec_normalize posix_env [(str ''naam'', [2344, 2366, 2350])] (str ''ek naam, do NAAM'')
       = str ''ek '' @ [2344, 2366, 2350] @ str '', do '' @ [2344, 2366, 2350]"
proof -
  have sp: "spec_normalize posix_env [(str ''naam'', [2344, 2366, 2350])] (str ''ek naam, do NAAM'')
       = str ''ek '' @ [2344, 2366, 2350] @ str '', do '' @ [2344, 2366, 2350]"
    by (simp add: ci_equal_def demo_tables)
  show ?thesis
    using preprocess_text_plain[OF naam_plain, of "str ''ek naam, do NAAM''"] sp
    by (simp add: hindi_text_def)
qed

text \<open>
  C4. Whole-word case-insensitive substitution: normalize replaces every whole-word
  occurrence of a key, whatever its case, with the Hindi value, and nothing else. The
  three examples of the claim hold of the code: with the lexicon \<^verbatim>\<open>{"naam": "\<dots>"}\<close>, whose
  value is the Devanagari word \<open>[2344, 2366, 2350]\<close>, the text \<^verbatim>\<open>mera naam hai\<close> has its
  middle word replaced, \<^verbatim>\<open>naamkaran\<close> is unchanged and \<^verbatim>\<open>NAAM\<close> is replaced. The claim
  itself does not hold of the code for every pair: \<^verbatim>\<open>preprocess_text\<close> puts the key between
  two \<^verbatim>\<open>\b\<close> without escaping it. With the lexicon \<^verbatim>\<open>{".": "X"}\<close> the text \<^verbatim>\<open>a\<close>, in which the
  key does not occur, becomes \<^verbatim>\<open>X\<close>; with the lexicon \<^verbatim>\<open>{"(": "X"}\<close> the normalizer raises
  instead of leaving the text as it is.
\<close>

theorem unescaped_key_failing_input:
  "preprocess_text posix_env [(str ''.'', JStr (str ''X''))] (str ''a'') = Inr (str ''X'')
   \<and> preprocess_text posix_env [(str ''('', JStr (str ''X''))] (str ''a'') = Inl ReError
   \<and> preprocess_text posix_env [(str ''naam'', JStr [2344, 2366, 2350])] (str ''mera naam hai'')
        = Inr (str ''mera '' @ [2344, 2366, 2350] @ str '' hai'')
   \<and> preprocess_text posix_env [(str ''naam'', JStr [2344, 2366, 2350])] (str ''naamkaran'')
        = Inr (str ''naamkaran'')
   \<and> preprocess_text posix_env [(str ''naam'', JStr [2344, 2366, 2350])] (str ''NAAM'')
        = Inr [2344, 2366, 2350]"
proof -
  have a: "preprocess_text posix_env [(str ''.'', JStr (str ''X''))] (str ''a'') = Inr (str ''X'')"
    by (simp add: demo_tables)
  have b: "preprocess_text posix_env [(str ''('', JStr (str ''X''))] (str ''a'') = Inl ReError"
    by (simp add: re_sub_def)
  show ?thesis
    using a b naam_example_1 naam_example_2 naam_example_3 by simp
qed

lemma open_paren_key: "preprocess_text E ((str ''('', hindi) # items) s = Inl ReError"
  by (simp add: re_sub_def)

lemma dot_key_example:
  "preprocess_text posix_env [(str ''.'', JStr (str ''X''))] (str ''ab cd. a'')
     = Inr (str ''abXcd. X'')"
  by (simp add: demo_tables)

lemma open_paren_anywhere:
  "str ''('' \<in> fst ` set lexi \<Longrightarrow> \<exists>e. preprocess_text E lexi s = Inl e"
proof (induction lexi arbitrary: s)
  case Nil
  then show ?case by simp
next
  case (Cons kv lexi)
  obtain k v where kv: "kv = (k, v)" by (cases kv)
  show ?case
  proof (cases "k = str ''(''")
    case True
    then show ?thesis using open_paren_key[of E v lexi s] by (simp add: kv)
  next
    case False
    with Cons.prems kv have inrest: "str ''('' \<in> fst ` set lexi" by auto
    show ?thesis
    proof (cases "re_sub E ([92, 98] @ k @ [92, 98]) v s")
      case (Inl e)
      then show ?thesis by (simp add: kv)
    next
      case (Inr s')
      from Cons.IH[OF inrest, of s'] Inr show ?thesis by (simp add: kv)
    qed
  qed
qed

lemma open_paren_after_plain:
  "plain_lexicon E before \<Longrightarrow>
   preprocess_text E (before @ (str ''('', hindi) # items) s = Inl ReError"
proof (induction before arbitrary: s)
  case Nil
  then show ?case using open_paren_key[of E hindi items s] by simp
next
  case (Cons kv before)
  obtain k v where kv: "kv = (k, v)" by (cases kv)
  from Cons.prems kv have pk: "plain_key E k" and pv: "plain_value v"
    and rest: "plain_lexicon E before"
    by (auto simp: plain_lexicon_def)
  from pv obtain h where v: "v = JStr h" and nb: "92 \<notin> set h"
    by (cases v) (auto simp: plain_value_def)
  have "re_sub E ([92, 98] @ k @ [92, 98]) v s = Inr (spec_replace_words E k h s)"
    unfolding v by (rule re_sub_plain[OF pk nb])
  then show ?case
    using Cons.IH[OF rest, of "spec_replace_words E k h s"] by (simp add: kv)
qed

text \<open>
  C10 (as amended). Keys are put into the pattern without escaping. For every lexicon
  whose keys and values are plain the normalizer returns the literal whole-word
  replacements. A lexicon that contains the key \<^verbatim>\<open>(\<close> makes the normalizer raise,
  whatever the text, the values and the other entries are; the exception is \<^verbatim>\<open>re.error\<close>
  when the entries before that key are plain, and so when there are none. The key \<^verbatim>\<open>.\<close>
  matches what is not a dot: in \<^verbatim>\<open>ab cd. a\<close> it replaces the first blank and the last word.
\<close>

theorem preprocess_text_unescaped_keys:
  "(plain_lexicon E lexi \<longrightarrow>
      (\<exists>out. preprocess_text E lexi s = Inr out
         \<and> out = spec_normalize E (map (\<lambda>(k, v). (k, hindi_text v)) lexi) s))
   \<and> (str ''('' \<in> fst ` set unsafe \<longrightarrow> (\<exists>e. preprocess_text E unsafe s = Inl e))
   \<and> (plain_lexicon E before \<longrightarrow>
        preprocess_text E (before @ (str ''('', hindi) # items) s = Inl ReError)
   \<and> preprocess_text posix_env [(str ''.'', JStr (str ''X''))] (str ''ab cd. a'')
        = Inr (str ''abXcd. X'')"
  using preprocess_text_plain open_paren_anywhere open_paren_after_plain dot_key_example
  by blast

theorem preprocess_text_unescaped_keys_witness:
  "plain_lexicon posix_env [(str ''hai'', JStr (str ''IS''))]
   \<and> preprocess_text posix_env [(str ''hai'', JStr (str ''IS''))] (str ''yah Hai'')
       = Inr (str ''yah IS'')
   \<and> str ''('' \<in> fst ` set [(str ''a'', JNum 5), (str ''('', JStr (str ''IS''))]
   \<and> (\<exists>e. preprocess_text posix_env [(str ''a'', JNum 5), (str ''('', JStr (str ''IS''))]
              (str ''yah Hai'') = Inl e)
   \<and> preprocess_text posix_env
         ([(str ''hai'', JStr (str ''IS''))] @ (str ''('', JStr (str ''IS'')) # [])
         (str ''yah Hai'') = Inl ReError"
proof -
  have pl: "plain_lexicon posix_env [(str ''hai'', JStr (str ''IS''))]"
    by (simp add: plain_lexicon_def plain_key_def plain_value_def demo_tables)
  have sp: "spec_normalize posix_env [(str ''hai'', str ''IS'')] (str ''yah Hai'') = str ''yah IS''"
    by (simp add: ci_equal_def demo_tables)
  have mem: "str ''('' \<in> fst ` set [(str ''a'', JNum 5), (str ''('', JStr (str ''IS''))]"
    by simp
  from preprocess_text_unescaped_keys
      [of posix_env "[(str ''hai'', JStr (str ''IS''))]" "str ''yah Hai''"
          "[(str ''a'', JNum 5), (str ''('', JStr (str ''IS''))]"
          "[(str ''hai'', JStr (str ''IS''))]" "JStr (str ''IS'')" "[]"] pl mem
  have "(\<exists>out. preprocess_text posix_env [(str ''hai'', JStr (str ''IS''))] (str ''yah Hai'') = Inr out
          \<and> out = spec_normalize posix_env
                 (map (\<lambda>(k, v). (k, hindi_text v)) [(str ''hai'', JStr (str ''IS''))])
                 (str ''yah Hai''))
      \<and> (\<exists>e. preprocess_text posix_env [(str ''a'', JNum 5), (str ''('', JStr (str ''IS''))]
              (str ''yah Hai'') = Inl e)
      \<and> preprocess_text posix_env
         ([(str ''hai'', JStr (str ''IS''))] @ (str ''('', JStr (str ''IS'')) # [])
         (str ''yah Hai'') = Inl ReError"
    by blast
  then show ?thesis using pl sp mem by (simp add: hindi_text_def)
qed

text \<open>
  The claim C10 as it was stated, for every lexicon whose keys are alphanumeric, fails on
  the values: with the key \<^verbatim>\<open>a\<close>, a value that is a single backslash is a malformed
  template, and a value that is a number is not a template at all; the normalizer raises
  on both.
\<close>

theorem backslash_value_counterexample:
  "plain_key posix_env (str ''a'')
   \<and> preprocess_text posix_env [(str ''a'', JStr [92])] (str ''a'') = Inl ReError
   \<and> preprocess_text posix_env [(str ''a'', JNum 5)] (str ''a'') = Inl TypeError"
  by (simp add: plain_key_def demo_tables)


section \<open>Properties of the lexicon loader\<close>

lemma update_key_set: "fst ` set (AList.update k v al) = insert k (fst ` set al)"
proof -
  have "set (map fst (AList.update k v al)) = insert k (set (map fst al))"
    by (simp add: update_keys) blast
  then show ?thesis by simp
qed

lemma load_line_result:
  assumes "load_line E lexi line = Inr lexi'"
  shows "\<exists>members translation hinglish.
           json_loads E line = Some (JObj members)
         \<and> dict_get members (str ''translation'') (JObj []) = JObj translation
         \<and> dict_get translation (str ''hi_ng'') (JStr []) = JStr hinglish
         \<and> lexi' = AList.update (str_lower E hinglish)
                     (dict_get translation (str ''en'') (JStr [])) lexi"
  using assms unfolding load_line_def
  by (auto split: option.splits json.splits)

lemma dict_get_absent: "map_of members key = None \<Longrightarrow> dict_get members key dflt = dflt"
  by (simp add: dict_get_def)

lemma dict_get_present: "map_of members key = Some v \<Longrightarrow> dict_get members key dflt = v"
  by (simp add: dict_get_def)

lemma load_lines_keys:
  "load_lines E ls lexi = (e, lexi') \<Longrightarrow>
   \<forall>k\<in>fst ` set lexi'. k \<in> fst ` set lexi \<or>
     (\<exists>line members translation hinglish.
         line \<in> set ls
       \<and> json_loads E line = Some (JObj members)
       \<and> dict_get members (str ''translation'') (JObj []) = JObj translation
       \<and> dict_get translation (str ''hi_ng'') (JStr []) = JStr hinglish
       \<and> k = str_lower E hinglish)"
proof (induction ls arbitrary: lexi)
  case Nil
  then show ?case by auto
next
  case (Cons line ls)
  show ?case
  proof (cases "load_line E lexi line")
    case (Inl x)
    with Cons.prems show ?thesis by auto
  next
    case (Inr l1)
    with Cons.prems have "load_lines E ls l1 = (e, lexi')" by simp
    note ih = Cons.IH[OF this]
    from load_line_result[OF Inr] obtain members translation hinglish where
      r: "json_loads E line = Some (JObj members)"
         "dict_get members (str ''translation'') (JObj []) = JObj translation"
         "dict_get translation (str ''hi_ng'') (JStr []) = JStr hinglish"
         "l1 = AList.update (str_lower E hinglish) (dict_get translation (str ''en'') (JStr [])) lexi"
      by blast
    from r(4) have keys: "fst ` set l1 = insert (str_lower E hinglish) (fst ` set lexi)"
      by (simp only: update_key_set)
    show ?thesis
    proof
      fix k assume "k \<in> fst ` set lexi'"
      with ih have "k \<in> fst ` set l1 \<or>
        (\<exists>line members translation hinglish.
           line \<in> set ls
         \<and> json_loads E line = Some (JObj members)
         \<and> dict_get members (str ''translation'') (JObj []) = JObj translation
         \<and> dict_get translation (str ''hi_ng'') (JStr []) = JStr hinglish
         \<and> k = str_lower E hinglish)" by blast
      then show "k \<in> fst ` set lexi \<or>
        (\<exists>line' members translation hinglish.
           line' \<in> set (line # ls)
         \<and> json_loads E line' = Some (JObj members)
         \<and> dict_get members (str ''translation'') (JObj []) = JObj translation
         \<and> dict_get translation (str ''hi_ng'') (JStr []) = JStr hinglish
         \<and> k = str_lower E hinglish)"
      proof
        assume "k \<in> fst ` set l1"
        with keys have "k = str_lower E hinglish \<or> k \<in> fst ` set lexi" by auto
        then show ?thesis
        proof
          assume "k = str_lower E hinglish"
          with r(1,2,3) have "\<exists>line' members translation hinglish.
             line' \<in> set (line # ls)
           \<and> json_loads E line' = Some (JObj members)
           \<and> dict_get members (str ''translation'') (JObj []) = JObj translation
           \<and> dict_get translation (str ''hi_ng'') (JStr []) = JStr hinglish
           \<and> k = str_lower E hinglish"
            by (intro exI[of _ line] exI[of _ members] exI[of _ translation] exI[of _ hinglish])
               simp
          then show ?thesis by (rule disjI2)
        next
          assume "k \<in> fst ` set lexi"
          then show ?thesis by (rule disjI1)
        qed
      next
        assume "\<exists>line members translation hinglish.
           line \<in> set ls
         \<and> json_loads E line = Some (JObj members)
         \<and> dict_get members (str ''translation'') (JObj []) = JObj translation
         \<and> dict_get translation (str ''hi_ng'') (JStr []) = JStr hinglish
         \<and> k = str_lower E hinglish"
        then obtain l m t h where "l \<in> set ls" "json_loads E l = Some (JObj m)"
          "dict_get m (str ''translation'') (JObj []) = JObj t"
          "dict_get t (str ''hi_ng'') (JStr []) = JStr h" "k = str_lower E h" by blast
        then have "\<exists>line' members translation hinglish.
             line' \<in> set (line # ls)
           \<and> json_loads E line' = Some (JObj members)
           \<and> dict_get members (str ''translation'') (JObj []) = JObj translation
           \<and> dict_get translation (str ''hi_ng'') (JStr []) = JStr hinglish
           \<and> k = str_lower E hinglish"
          by (intro exI[of _ l] exI[of _ m] exI[of _ t] exI[of _ h]) simp
        then show ?thesis by (rule disjI2)
      qed
    qed
  qed
qed

lemma load_lines_all_stored:
  "load_lines E ls lexi = (None, lexi') \<Longrightarrow>
   fst ` set lexi \<subseteq> fst ` set lexi' \<and>
   (\<forall>line\<in>set ls. \<exists>members translation hinglish.
         json_loads E line = Some (JObj members)
       \<and> dict_get members (str ''translation'') (JObj []) = JObj translation
       \<and> dict_get translation (str ''hi_ng'') (JStr []) = JStr hinglish
       \<and> str_lower E hinglish \<in> fst ` set lexi')"
proof (induction ls arbitrary: lexi)
  case Nil
  then show ?case by simp
next
  case (Cons line ls)
  show ?case
  proof (cases "load_line E lexi line")
    case (Inl x)
    with Cons.prems show ?thesis by simp
  next
    case (Inr l1)
    with Cons.prems have "load_lines E ls l1 = (None, lexi')" by simp
    note ih = Cons.IH[OF this]
    from load_line_result[OF Inr] obtain members translation hinglish where
      r: "json_loads E line = Some (JObj members)"
         "dict_get members (str ''translation'') (JObj []) = JObj translation"
         "dict_get translation (str ''hi_ng'') (JStr []) = JStr hinglish"
         "l1 = AList.update (str_lower E hinglish) (dict_get translation (str ''en'') (JStr [])) lexi"
      by blast
    from r(4) have keys: "fst ` set l1 = insert (str_lower E hinglish) (fst ` set lexi)"
      by (simp only: update_key_set)
    from keys ih have sub: "fst ` set lexi \<subseteq> fst ` set lexi'"
      and here: "str_lower E hinglish \<in> fst ` set lexi'" by auto
    have "\<exists>members translation hinglish.
         json_loads E line = Some (JObj members)
       \<and> dict_get members (str ''translation'') (JObj []) = JObj translation
       \<and> dict_get translation (str ''hi_ng'') (JStr []) = JStr hinglish
       \<and> str_lower E hinglish \<in> fst ` set lexi'"
      using r(1,2,3) here by blast
    with sub ih show ?thesis by simp
  qed
qed

lemma load_line_unparseable: "json_loads E line = None \<Longrightarrow> load_line E lexi line = Inl JSONDecodeError"
  by (simp add: load_line_def)

lemma load_lines_bad_line:
  "\<exists>line\<in>set ls. json_loads E line = None \<Longrightarrow> \<exists>e l'. load_lines E ls lexi = (Some e, l')"
proof (induction ls arbitrary: lexi)
  case Nil
  then show ?case by simp
next
  case (Cons line ls)
  show ?case
  proof (cases "load_line E lexi line")
    case (Inl x)
    then show ?thesis by simp
  next
    case (Inr l1)
    then have "json_loads E line \<noteq> None"
      using load_line_unparseable[of E line lexi] by (cases "json_loads E line") auto
    with Cons.prems have "\<exists>line\<in>set ls. json_loads E line = None" by auto
    from Cons.IH[OF this, of l1] Inr show ?thesis by simp
  qed
qed

lemma load_lines_stops:
  "fst (load_lines E pre lexi) = None \<Longrightarrow> json_loads E line = None \<Longrightarrow>
   load_lines E (pre @ line # post) lexi = (Some JSONDecodeError, snd (load_lines E pre lexi))"
proof (induction pre arbitrary: lexi)
  case Nil
  then show ?case by (simp add: load_line_unparseable)
next
  case (Cons l pre)
  then show ?case by (cases "load_line E lexi l") auto
qed

lemma load_hinglish_mapping_frame:
  "load_hinglish_mapping E s path = (e, s') \<Longrightarrow>
   files s' = files s \<and> dirs s' = dirs s \<and> calls s' = calls s \<and> unwritable s' = unwritable s"
  by (auto simp: load_hinglish_mapping_def split: option.splits prod.splits)

lemma main_load_raises:
  "load_hinglish_mapping E s DATASET_PATH = (Some e, s') \<Longrightarrow> main E s a = (Some e, s')"
  by (simp add: main_def)

text \<open>
  C8. Fatal lexicon load. For every dataset path: if the file is missing, or some line
  of it is not parseable, \<^verbatim>\<open>load_hinglish_mapping\<close> raises, having touched no file and called
  no collaborator; when the path is the one \<^verbatim>\<open>main\<close> loads, the exception leaves \<^verbatim>\<open>main\<close>
  before any file is processed. The loop does not skip the bad line: when the lines
  before it load, the load ends with the decoding error and with the dictionary as those
  lines left it, whatever follows the bad line.
\<close>

theorem lexicon_load_fatal:
  "(files s path = None \<or>
      (\<exists>content. files s path = Some content
         \<and> (\<exists>line\<in>set (file_lines content). json_loads E line = None))
    \<longrightarrow> (\<exists>e s'. load_hinglish_mapping E s path = (Some e, s')
           \<and> files s' = files s \<and> calls s' = calls s
           \<and> (path = DATASET_PATH \<longrightarrow> main E s a = (Some e, s'))))
   \<and> (fst (load_lines E pre lexi) = None \<and> json_loads E bad = None
        \<longrightarrow> load_lines E (pre @ bad # post) lexi
              = (Some JSONDecodeError, snd (load_lines E pre lexi)))"
proof (intro conjI impI)
  assume bad: "files s path = None \<or>
      (\<exists>content. files s path = Some content
         \<and> (\<exists>line\<in>set (file_lines content). json_loads E line = None))"
  have "\<exists>e s'. load_hinglish_mapping E s path = (Some e, s')"
  proof (cases "files s path")
    case None
    then show ?thesis by (simp add: load_hinglish_mapping_def)
  next
    case (Some content)
    with bad have "\<exists>line\<in>set (file_lines content). json_loads E line = None" by auto
    from load_lines_bad_line[OF this, of "HINGLISH_TO_HINDI s"]
    obtain e l' where "load_lines E (file_lines content) (HINGLISH_TO_HINDI s) = (Some e, l')"
      by blast
    with Some show ?thesis by (simp add: load_hinglish_mapping_def)
  qed
  then obtain e s' where l: "load_hinglish_mapping E s path = (Some e, s')" by blast
  from load_hinglish_mapping_frame[OF l] main_load_raises[of E s e s' a] l
  show "\<exists>e s'. load_hinglish_mapping E s path = (Some e, s')
           \<and> files s' = files s \<and> calls s' = calls s
           \<and> (path = DATASET_PATH \<longrightarrow> main E s a = (Some e, s'))"
    by auto
next
  assume "fst (load_lines E pre lexi) = None \<and> json_loads E bad = None"
  then show "load_lines E (pre @ bad # post) lexi
              = (Some JSONDecodeError, snd (load_lines E pre lexi))"
    using load_lines_stops by blast
qed

lemma main_broken:
  "main sample_env broken_dataset_state a
     = (Some JSONDecodeError,
        broken_dataset_state\<lparr>HINGLISH_TO_HINDI := [(str ''naam'', JStr [2344, 2366, 2350])]\<rparr>)"
  unfolding main_def load_hinglish_mapping_def
  by (simp add: broken_dataset_state_def initial_state_def naam_line_def quoted_def
      load_line_def sample_env_def sample_json_loads_def posix_env_def dict_get_def ascii_lower_def)

theorem lexicon_load_fatal_witness:
  "(\<exists>line\<in>set (file_lines (naam_line @ str ''not json'' @ [10] @ str ''{}'' @ [10])).
       json_loads sample_env line = None)
   \<and> main sample_env broken_dataset_state sample_args
       = (Some JSONDecodeError,
          broken_dataset_state\<lparr>HINGLISH_TO_HINDI := [(str ''naam'', JStr [2344, 2366, 2350])]\<rparr>)
   \<and> (\<exists>e s'. load_hinglish_mapping sample_env broken_dataset_state DATASET_PATH = (Some e, s')
          \<and> files s' = files broken_dataset_state \<and> calls s' = []
          \<and> main sample_env broken_dataset_state sample_args = (Some e, s'))"
proof -
  have a: "\<exists>line\<in>set (file_lines (naam_line @ str ''not json'' @ [10] @ str ''{}'' @ [10])).
       json_loads sample_env line = None"
    by (simp add: sample_env_def sample_json_loads_def naam_line_def quoted_def)
  have b: "files broken_dataset_state DATASET_PATH
             = Some (naam_line @ str ''not json'' @ [10] @ str ''{}'' @ [10])"
    by (simp add: broken_dataset_state_def)
  have c: "calls broken_dataset_state = []"
    by (simp add: broken_dataset_state_def initial_state_def)
  from lexicon_load_fatal
         [of broken_dataset_state DATASET_PATH sample_env sample_args "[]" "[]" "[]" "[]"] a b
  have "\<exists>e s'. load_hinglish_mapping sample_env broken_dataset_state DATASET_PATH = (Some e, s')
          \<and> files s' = files broken_dataset_state \<and> calls s' = calls broken_dataset_state
          \<and> main sample_env broken_dataset_state sample_args = (Some e, s')"
    by blast
  then show ?thesis using a c main_broken[of sample_args] by simp
qed

text \<open>
  C7 (as amended). Lexicon key invariant. After loading any dataset, every key of the
  dictionary that was not there before is the lower-cased \<^verbatim>\<open>hi_ng\<close> field of a record on
  a line of the dataset, the field counting as the empty string when the record has
  none; and when the load ends without an exception, every line of the dataset is such a
  record and the lower-casing of its \<^verbatim>\<open>hi_ng\<close> field is a key of the dictionary. Nothing
  keeps a key from being empty.
\<close>

theorem lexicon_keys_lowercased:
  "load_hinglish_mapping E s file_path = (e, s') \<Longrightarrow>
   (\<forall>k\<in>fst ` set (HINGLISH_TO_HINDI s').
      k \<in> fst ` set (HINGLISH_TO_HINDI s) \<or>
      (\<exists>content line members translation hinglish.
          files s file_path = Some content
        \<and> line \<in> set (file_lines content)
        \<and> json_loads E line = Some (JObj members)
        \<and> dict_get members (str ''translation'') (JObj []) = JObj translation
        \<and> dict_get translation (str ''hi_ng'') (JStr []) = JStr hinglish
        \<and> k = str_lower E hinglish))
   \<and> (e = None \<longrightarrow>
        (\<forall>content. files s file_path = Some content \<longrightarrow>
           (\<forall>line\<in>set (file_lines content). \<exists>members translation hinglish.
                json_loads E line = Some (JObj members)
              \<and> dict_get members (str ''translation'') (JObj []) = JObj translation
              \<and> dict_get translation (str ''hi_ng'') (JStr []) = JStr hinglish
              \<and> str_lower E hinglish \<in> fst ` set (HINGLISH_TO_HINDI s'))))
   \<and> dict_get [] (str ''hi_ng'') (JStr []) = JStr []"
proof (cases "files s file_path")
  case None
  assume "load_hinglish_mapping E s file_path = (e, s')"
  with None show ?thesis by (auto simp: load_hinglish_mapping_def dict_get_def)
next
  case (Some content)
  assume l: "load_hinglish_mapping E s file_path = (e, s')"
  obtain e1 l1 where ll: "load_lines E (file_lines content) (HINGLISH_TO_HINDI s) = (e1, l1)"
    by (cases "load_lines E (file_lines content) (HINGLISH_TO_HINDI s)")
  with l Some have eq: "HINGLISH_TO_HINDI s' = l1" "e = e1"
    by (auto simp: load_hinglish_mapping_def)
  have a: "\<forall>k\<in>fst ` set (HINGLISH_TO_HINDI s').
      k \<in> fst ` set (HINGLISH_TO_HINDI s) \<or>
      (\<exists>content line members translation hinglish.
          files s file_path = Some content
        \<and> line \<in> set (file_lines content)
        \<and> json_loads E line = Some (JObj members)
        \<and> dict_get members (str ''translation'') (JObj []) = JObj translation
        \<and> dict_get translation (str ''hi_ng'') (JStr []) = JStr hinglish
        \<and> k = str_lower E hinglish)"
    using load_lines_keys[OF ll] Some unfolding eq by blast
  have b: "e = None \<longrightarrow>
        (\<forall>content. files s file_path = Some content \<longrightarrow>
           (\<forall>line\<in>set (file_lines content). \<exists>members translation hinglish.
                json_loads E line = Some (JObj members)
              \<and> dict_get members (str ''translation'') (JObj []) = JObj translation
              \<and> dict_get translation (str ''hi_ng'') (JStr []) = JStr hinglish
              \<and> str_lower E hinglish \<in> fst ` set (HINGLISH_TO_HINDI s')))"
  proof (intro impI allI)
    fix c assume en: "e = None" and c: "files s file_path = Some c"
    with Some have cc: "c = content" by simp
    from ll en eq have "load_lines E (file_lines content) (HINGLISH_TO_HINDI s) = (None, l1)"
      by simp
    from load_lines_all_stored[OF this] show "\<forall>line\<in>set (file_lines c). \<exists>members translation hinglish.
                json_loads E line = Some (JObj members)
              \<and> dict_get members (str ''translation'') (JObj []) = JObj translation
              \<and> dict_get translation (str ''hi_ng'') (JStr []) = JStr hinglish
              \<and> str_lower E hinglish \<in> fst ` set (HINGLISH_TO_HINDI s')"
      unfolding cc eq by blast
  qed
  have c: "dict_get [] (str ''hi_ng'') (JStr []) = JStr []" by (simp add: dict_get_def)
  from a b c show ?thesis by blast
qed

lemma load_empty_key:
  "load_hinglish_mapping sample_env empty_key_state DATASET_PATH
     = (None, empty_key_state\<lparr>HINGLISH_TO_HINDI :=
                [(str ''naam'', JStr [2344, 2366, 2350]), ([], JStr [])]\<rparr>)"
proof -
  have fl: "file_lines (naam_line @ str ''{}'' @ [10]) = [naam_line, str ''{}'' @ [10]]"
    by (simp add: naam_line_def quoted_def)
  show ?thesis
    unfolding load_hinglish_mapping_def
    by (simp add: empty_key_state_def initial_state_def naam_line_def quoted_def
      load_line_def sample_env_def sample_json_loads_def posix_env_def dict_get_def ascii_lower_def)
qed

lemma sample_lower: "str_lower sample_env = map ascii_lower"
  by (simp add: sample_env_def posix_env_def)

theorem lexicon_keys_lowercased_witness:
  "load_hinglish_mapping sample_env empty_key_state DATASET_PATH
     = (None, empty_key_state\<lparr>HINGLISH_TO_HINDI :=
                [(str ''naam'', JStr [2344, 2366, 2350]), ([], JStr [])]\<rparr>)
   \<and> (\<exists>line members translation hinglish.
          line \<in> set (file_lines (naam_line @ str ''{}'' @ [10]))
        \<and> json_loads sample_env line = Some (JObj members)
        \<and> dict_get members (str ''translation'') (JObj []) = JObj translation
        \<and> dict_get translation (str ''hi_ng'') (JStr []) = JStr hinglish
        \<and> str ''naam'' = str_lower sample_env hinglish)
   \<and> json_loads sample_env naam_line
        = Some (JObj [(str ''translation'',
                       JObj [(str ''hi_ng'', JStr (str ''Naam'')),
                             (str ''en'', JStr [2344, 2366, 2350])])])
   \<and> str_lower sample_env (str ''Naam'') = str ''naam''"
proof -
  have f: "files empty_key_state DATASET_PATH = Some (naam_line @ str ''{}'' @ [10])"
    by (simp add: empty_key_state_def)
  have k0: "fst ` set (HINGLISH_TO_HINDI empty_key_state) = {}"
    by (simp add: empty_key_state_def initial_state_def)
  have k1: "str ''naam'' \<in> fst ` set (HINGLISH_TO_HINDI
              (empty_key_state\<lparr>HINGLISH_TO_HINDI :=
                [(str ''naam'', JStr [2344, 2366, 2350]), ([], JStr [])]\<rparr>))"
    by simp
  from lexicon_keys_lowercased[OF load_empty_key, THEN conjunct1, rule_format, OF k1]
  have "\<exists>content line members translation hinglish.
          files empty_key_state DATASET_PATH = Some content
        \<and> line \<in> set (file_lines content)
        \<and> json_loads sample_env line = Some (JObj members)
        \<and> dict_get members (str ''translation'') (JObj []) = JObj translation
        \<and> dict_get translation (str ''hi_ng'') (JStr []) = JStr hinglish
        \<and> str ''naam'' = str_lower sample_env hinglish"
    unfolding k0 by simp
  then have ex: "\<exists>line members translation hinglish.
          line \<in> set (file_lines (naam_line @ str ''{}'' @ [10]))
        \<and> json_loads sample_env line = Some (JObj members)
        \<and> dict_get members (str ''translation'') (JObj []) = JObj translation
        \<and> dict_get translation (str ''hi_ng'') (JStr []) = JStr hinglish
        \<and> str ''naam'' = str_lower sample_env hinglish"
    unfolding f by blast
  have j: "json_loads sample_env naam_line
        = Some (JObj [(str ''translation'',
                       JObj [(str ''hi_ng'', JStr (str ''Naam'')),
                             (str ''en'', JStr [2344, 2366, 2350])])])"
    by (simp add: sample_env_def sample_json_loads_def naam_line_def quoted_def)
  have lw: "str_lower sample_env (str ''Naam'') = str ''naam''"
    by (simp add: sample_lower ascii_lower_def)
  from load_empty_key ex j lw show ?thesis by blast
qed

text \<open>
  The claim C7 as it was stated, with non-empty keys, fails: a record with no \<^verbatim>\<open>hi_ng\<close>
  field is stored under the empty key.
\<close>

theorem empty_key_counterexample:
  "[] \<in> fst ` set (HINGLISH_TO_HINDI
                      (snd (load_hinglish_mapping sample_env empty_key_state DATASET_PATH)))"
  by (simp add: load_empty_key)


section \<open>Properties of the transcript writer\<close>


lemma create_transcript_file_skipped:
  assumes "path_exists s (output_path E file_path) \<or> output_path E file_path \<in> unwritable s"
  shows "create_transcript_file E s file_path transcript confidence_scores = s"
  using assms by (auto simp: create_transcript_file_def output_path_def Let_def)







section \<open>Properties of the audio pipeline\<close>







lemma hindi_env_fields:
  "recognize_google hindi_env = (\<lambda>path. Heard (str ''mera naam hai''))"
  "detect hindi_env = (\<lambda>s. Some (str ''hi''))"
  "translator hindi_env = (\<lambda>s src. Some (str ''my name is''))"
  "recognize_google blank_translation_env = (\<lambda>path. Heard (str ''mera naam hai''))"
  "detect blank_translation_env = (\<lambda>s. Some (str ''hi''))"
  "translator blank_translation_env = (\<lambda>s src. Some [])"
  "recognize_google failing_translation_env = (\<lambda>path. Heard (str ''mera naam hai''))"
  "detect failing_translation_env = (\<lambda>s. Some (str ''hi''))"
  "translator failing_translation_env = (\<lambda>s src. None)"
  by (simp_all add: hindi_env_def blank_translation_env_def failing_translation_env_def)

lemma hindi_env_preprocess:
  "preprocess_text hindi_env naam_lexicon (str ''mera naam hai'') = Inr naam_normalized"
  "preprocess_text blank_translation_env naam_lexicon (str ''mera naam hai'') = Inr naam_normalized"
  "preprocess_text failing_translation_env naam_lexicon (str ''mera naam hai'') = Inr naam_normalized"
  by (simp_all add: hindi_env_def blank_translation_env_def failing_translation_env_def
        sample_env_def naam_lexicon_def
        naam_normalized_def demo_tables)

lemma hindi_env_supported:
  "is_supported_format hindi_env (str ''clip.mp3'')"
  "is_supported_format blank_translation_env (str ''clip.mp3'')"
  "is_supported_format failing_translation_env (str ''clip.mp3'')"
  by (simp_all add: is_supported_format_def splitext_def sep_index_def rfind_def
        hindi_env_def blank_translation_env_def failing_translation_env_def sample_env_def
        posix_env_def
        SUPPORTED_FORMATS_def ascii_lower_def)

lemma hindi_env_output:
  "output_path hindi_env (str ''clip.mp3'') = str ''clip-transcript.txt''"
  "output_path blank_translation_env (str ''clip.mp3'') = str ''clip-transcript.txt''"
  "fst (splitext hindi_env (basename hindi_env (str ''clip.mp3''))) = str ''clip''"
  "fst (splitext blank_translation_env (basename blank_translation_env (str ''clip.mp3''))) = str ''clip''"
  "output_path failing_translation_env (str ''clip.mp3'') = str ''clip-transcript.txt''"
  "fst (splitext failing_translation_env (basename failing_translation_env (str ''clip.mp3'')))
     = str ''clip''"
  by (simp_all add: output_path_def splitext_def sep_index_def rfind_def posix_basename_def
        hindi_env_def blank_translation_env_def failing_translation_env_def sample_env_def
        posix_env_def)

lemma translate_audio_hindi:
  assumes "HINGLISH_TO_HINDI s = naam_lexicon"
  shows "translate_audio_to_text hindi_env s (str ''clip.mp3'')
     = (Some (str ''my name is''),
        s\<lparr>calls := calls s @ [Recognize (str ''clip.mp3''), Detect naam_normalized,
                                Translate naam_normalized (str ''hi'')]\<rparr>)"
  by (simp add: translate_audio_to_text_def detect_and_transcribe_def translate_text_def
        record_call_def Let_def hindi_env_fields hindi_env_preprocess[simplified] assms)


lemma pipeline_state_fields:
  "HINGLISH_TO_HINDI pipeline_state = naam_lexicon"
  "HINGLISH_TO_HINDI artifact_state = naam_lexicon"
  "is_valid_file pipeline_state (str ''clip.mp3'')"
  "is_valid_file artifact_state (str ''clip.mp3'')"
  "\<not> path_exists pipeline_state (str ''clip-transcript.txt'')"
  "path_exists artifact_state (str ''clip-transcript.txt'')"
  "unwritable pipeline_state = {}"
  "calls pipeline_state = []"
  "calls artifact_state = []"
  by (simp_all add: pipeline_state_def artifact_state_def initial_state_def is_valid_file_def
        path_exists_def)

lemmas pipeline_facts =
  pipeline_state_fields[simplified] hindi_env_supported[simplified] hindi_env_output[simplified]

lemma process_file_hindi:
  "process_file hindi_env pipeline_state (str ''clip.mp3'') t
     = pipeline_state
         \<lparr>files := (files pipeline_state)
                     (str ''clip-transcript.txt'' \<mapsto> str ''clip:'' @ [10] @ str ''my name is''),
          calls := [Recognize (str ''clip.mp3''), Detect naam_normalized,
                    Translate naam_normalized (str ''hi'')]\<rparr>"
  using pipeline_state_fields(5)[simplified]
  by (simp add: process_file_def translate_audio_hindi[simplified] pipeline_facts
        create_transcript_file_def transcript_content_def Let_def path_exists_def)






text \<open>
  C3. Optional translation: a file processed without \<^verbatim>\<open>--translate\<close> gets the untranslated
  normalized text. The code does not do this: \<^verbatim>\<open>process_file\<close> takes the flag and never
  reads it, so a run with the flag and a run without it are the same run. Processed
  without the flag, \<^verbatim>\<open>clip.mp3\<close> is translated, and its transcript is the translation
  \<^verbatim>\<open>my name is\<close>, not the normalized text.
\<close>

theorem translate_flag_ignored:
  "process_file E s file_path True = process_file E s file_path False
   \<and> preprocess_text hindi_env (HINGLISH_TO_HINDI pipeline_state) (str ''mera naam hai'')
       = Inr naam_normalized
   \<and> files (process_file hindi_env pipeline_state (str ''clip.mp3'') False)
         (str ''clip-transcript.txt'')
       = Some (str ''clip:'' @ [10] @ str ''my name is'')
   \<and> calls (process_file hindi_env pipeline_state (str ''clip.mp3'') False)
       = [Recognize (str ''clip.mp3''), Detect naam_normalized,
          Translate naam_normalized (str ''hi'')]"
proof -
  have a: "process_file E s file_path True = process_file E s file_path False"
    by (simp add: process_file_def)
  have b: "preprocess_text hindi_env (HINGLISH_TO_HINDI pipeline_state) (str ''mera naam hai'')
       = Inr naam_normalized"
    unfolding pipeline_state_fields by (rule hindi_env_preprocess)
  show ?thesis using a b by (simp add: process_file_hindi[simplified])
qed

theorem translate_flag_ignored_witness:
  "files (process_file hindi_env pipeline_state (str ''clip.mp3'') True)
     (str ''clip-transcript.txt'')
   = Some (str ''clip:'' @ [10] @ str ''my name is'')
   \<and> files (process_file hindi_env pipeline_state (str ''clip.mp3'') False)
       (str ''clip-transcript.txt'')
     = Some (str ''clip:'' @ [10] @ str ''my name is'')"
  using translate_flag_ignored[of hindi_env pipeline_state "str ''clip.mp3''"] by simp






section \<open>Properties of the directory walker\<close>

lemma flat_walk:
  "dirs s directory_path \<noteq> None \<Longrightarrow>
   process_directory E s directory_path False t = (Some TypeError, s)"
  by (simp add: process_directory_def os_walk_def)

lemma translate_audio_hindi_any:
  assumes "HINGLISH_TO_HINDI s = naam_lexicon"
  shows "translate_audio_to_text hindi_env s f
     = (Some (str ''my name is''),
        s\<lparr>calls := calls s @ [Recognize f, Detect naam_normalized,
                                Translate naam_normalized (str ''hi'')]\<rparr>)"
  by (simp add: translate_audio_to_text_def detect_and_transcribe_def translate_text_def
        record_call_def Let_def hindi_env_fields hindi_env_preprocess[simplified] assms)

lemma walk_of_A:
  "os_walk hindi_env walk_state (PathArg (str ''A''))
     = Inr [(str ''A'', [str ''sub''], [str ''x.wav'']), (str ''A/sub'', [], [str ''y.wav''])]"
  by (simp add: os_walk_def walk_state_def hindi_env_def sample_env_def posix_env_def
        posix_join_def)

lemma walk_supported:
  "is_supported_format hindi_env (str ''A/x.wav'')"
  "is_supported_format hindi_env (str ''A/sub/y.wav'')"
  "path_join hindi_env (str ''A'') (str ''x.wav'') = str ''A/x.wav''"
  "path_join hindi_env (str ''A/sub'') (str ''y.wav'') = str ''A/sub/y.wav''"
  "fst (splitext hindi_env (basename hindi_env (str ''A/x.wav''))) = str ''x''"
  "fst (splitext hindi_env (basename hindi_env (str ''A/sub/y.wav''))) = str ''y''"
  by (simp_all add: is_supported_format_def splitext_def sep_index_def rfind_def
        posix_basename_def posix_join_def hindi_env_def sample_env_def posix_env_def
        SUPPORTED_FORMATS_def ascii_lower_def)

lemma recursive_walk_calls:
  "fst (process_directory hindi_env walk_state (str ''A'') True False) = None
   \<and> calls (snd (process_directory hindi_env walk_state (str ''A'') True False))
       = [Recognize (str ''A/x.wav''), Detect naam_normalized,
          Translate naam_normalized (str ''hi''),
          Recognize (str ''A/sub/y.wav''), Detect naam_normalized,
          Translate naam_normalized (str ''hi'')]"
proof -
  have d: "dirs walk_state (str ''A'') \<noteq> None" by (simp add: walk_state_def)
  have l: "HINGLISH_TO_HINDI walk_state = naam_lexicon" by (simp add: walk_state_def)
  have v: "is_valid_file walk_state (str ''A/x.wav'')" "is_valid_file walk_state (str ''A/sub/y.wav'')"
    by (simp_all add: is_valid_file_def walk_state_def)
  have c: "calls walk_state = []" by (simp add: walk_state_def initial_state_def)
  show ?thesis
    using d v
    by (simp add: process_directory_def walk_of_A[simplified] process_triple_def
          process_entry_def Let_def walk_supported[simplified] process_file_def
          translate_audio_hindi_any l c create_transcript_file_def is_valid_file_def)
qed

text \<open>
  C2. Directory walking: with \<^verbatim>\<open>recursive\<close> false the walker processes the supported files
  among the entries of the directory itself, without raising. The code does not do this:
  for every directory, \<^verbatim>\<open>process_directory\<close> with \<^verbatim>\<open>recursive\<close> false hands \<^verbatim>\<open>os.walk\<close> the
  list \<^verbatim>\<open>[directory_path]\<close>, so the loop raises \<^verbatim>\<open>TypeError\<close> at its first step and no file is
  processed. With \<^verbatim>\<open>recursive\<close> true the walk covers the subtree: in the example it sends
  \<^verbatim>\<open>A/x.wav\<close> and then \<^verbatim>\<open>A/sub/y.wav\<close> through the pipeline, and returns.
\<close>

theorem flat_walk_raises:
  "(dirs s directory_path \<noteq> None \<longrightarrow>
      process_directory E s directory_path False t = (Some TypeError, s))
   \<and> fst (process_directory hindi_env walk_state (str ''A'') True False) = None
   \<and> calls (snd (process_directory hindi_env walk_state (str ''A'') True False))
       = [Recognize (str ''A/x.wav''), Detect naam_normalized,
          Translate naam_normalized (str ''hi''),
          Recognize (str ''A/sub/y.wav''), Detect naam_normalized,
          Translate naam_normalized (str ''hi'')]"
  using flat_walk recursive_walk_calls by blast

theorem flat_walk_raises_witness:
  "dirs walk_state (str ''A'') \<noteq> None
   \<and> process_directory hindi_env walk_state (str ''A'') False False = (Some TypeError, walk_state)
   \<and> calls walk_state = []"
proof -
  have d: "dirs walk_state (str ''A'') \<noteq> None" by (simp add: walk_state_def)
  have c: "calls walk_state = []" by (simp add: walk_state_def initial_state_def)
  from flat_walk_raises[of walk_state "str ''A''" hindi_env False] d c
  show ?thesis by blast
qed

end
